theory Spec2Isabelle
  imports Main "HOL-Library.AList"
begin

section \<open>Traffic-Sim-360: a shallow embedding of project.py\<close>

text \<open>
  The program is one Python module. Its classes become records, the objects that are
  shared and mutated in place (the \<open>TrafficLight\<close> instances) live in an explicit heap,
  and everything else the program touches (the clock, the appended log file, standard
  output, the random generator, the sockets) is a field of one \<open>world\<close> record that every
  operation takes and returns.
\<close>

subsection \<open>Constants (lines 15--20)\<close>

definition MAX_VEHICLES :: int where
  "MAX_VEHICLES = 5"

definition RED_LIGHT_DURATION :: nat where
  "RED_LIGHT_DURATION = 10"

definition GREEN_LIGHT_DURATION :: nat where
  "GREEN_LIGHT_DURATION = 15"

definition YELLOW_LIGHT_DURATION :: nat where
  "YELLOW_LIGHT_DURATION = 5"

subsection \<open>Data\<close>

text \<open>The three strings ever assigned to \<open>TrafficLight.state\<close>.\<close>

datatype light_state = RED | YELLOW | GREEN

text \<open>The attributes of a \<open>TrafficLight\<close> object (lines 24--30).\<close>

record TrafficLight =
  state :: light_state
  name :: string
  green_duration :: nat
  red_duration :: nat
  yellow_duration :: nat
  vehicle_count_history :: "int list"

text \<open>
  The dictionary \<open>log_entry\<close> built by \<open>log_traffic_data\<close> (lines 53--58): its four keys.
  The timestamp is the clock reading in whole seconds, the resolution of the format
  string \<open>%Y-%m-%d %H:%M:%S\<close>.
\<close>

record log_entry =
  le_intersection :: string
  le_state :: light_state
  le_timestamp :: nat
  le_vehicle_count :: nat

text \<open>Values produced by \<open>json.loads\<close> and consumed by \<open>json.dumps\<close>.\<close>

datatype json =
    JNull
  | JBool bool
  | JInt int
  | JString string
  | JArray "json list"
  | JObject "(string \<times> json) list"

text \<open>The exceptions that the program can meet.\<close>

datatype error =
    SocketTimeout
  | OSError string
  | UnicodeDecodeError
  | JSONDecodeError
  | KeyError string
  | TypeError
  | UnboundLocalError string

text \<open>
  One constructor per \<open>print\<close> call of the module, carrying the values that the
  f-string interpolates.
\<close>

datatype out_line =
    LightNow string light_state
  | LoggedData log_entry
  | CheckingTraffic string int
  | IterationCompleted int int
  | ErrorSending error
  | ServerListening
  | ErrorStarting error
  | ReceivedData json json
  | ErrorProcessing error

text \<open>
  Everything outside the Python objects themselves.
  \<^item> \<open>clock\<close>: what \<open>datetime.now()\<close> reads, in seconds; \<open>time.sleep\<close> advances it.
  \<^item> \<open>log_file\<close>: the lines of \<open>traffic_data_log.json\<close>, opened in append mode.
  \<^item> \<open>stdout\<close>: the lines printed so far.
  \<^item> \<open>rand\<close>, \<open>rand_pos\<close>: the module-level random generator, an infinite sequence of
    raw choices and the number of choices consumed so far.
  \<^item> \<open>heap\<close>, \<open>next_addr\<close>: the \<open>TrafficLight\<close> objects by address, and the next free
    address.
  \<^item> \<open>open_conns\<close>: the accepted connections that have not been closed.
  \<^item> \<open>wire\<close>: the payloads that clients have sent.
\<close>

record world =
  clock :: nat
  log_file :: "log_entry list"
  stdout :: "out_line list"
  rand :: "nat \<Rightarrow> nat"
  rand_pos :: nat
  heap :: "nat \<Rightarrow> TrafficLight"
  next_addr :: nat
  open_conns :: "nat set"
  wire :: "string list"

subsection \<open>Primitive effects\<close>

definition print :: "out_line \<Rightarrow> world \<Rightarrow> world" where
  "print line w = w\<lparr>stdout := stdout w @ [line]\<rparr>"

definition sleep :: "nat \<Rightarrow> world \<Rightarrow> world" where
  "sleep secs w = w\<lparr>clock := clock w + secs\<rparr>"

text \<open>
  \<open>random.randint(a, b)\<close> is library code, documented to return an integer \<open>N\<close> with
  \<open>a \<le> N \<le> b\<close>, every value of the range being equally likely. The generator's next raw
  choice selects one of the \<open>b - a + 1\<close> values of the closed range, each value being
  selected by one raw choice in every \<open>b - a + 1\<close> consecutive ones, and the generator
  advances by one. The program only ever calls it with \<open>0\<close> and \<open>MAX_VEHICLES\<close>.
\<close>

definition randint :: "int \<Rightarrow> int \<Rightarrow> world \<Rightarrow> int \<times> world" where
  "randint a b w =
     (a + int (rand w (rand_pos w) mod nat (b - a + 1)),
      w\<lparr>rand_pos := rand_pos w + 1\<rparr>)"

subsection \<open>TrafficLight (lines 23--71)\<close>

text \<open>The constructor allocates a fresh object; the initial state is red.\<close>

definition TrafficLight_init :: "string \<Rightarrow> world \<Rightarrow> nat \<times> world" where
  "TrafficLight_init iname w =
     (next_addr w,
      w\<lparr>heap := (heap w)(next_addr w :=
            \<lparr>state = RED, name = iname,
             green_duration = GREEN_LIGHT_DURATION,
             red_duration = RED_LIGHT_DURATION,
             yellow_duration = YELLOW_LIGHT_DURATION,
             vehicle_count_history = []\<rparr>),
        next_addr := next_addr w + 1\<rparr>)"

text \<open>
  \<open>log_traffic_data\<close> (lines 50--63) builds the entry from the light as it is now, appends
  it to the log file and prints it. Opening and writing the file are taken to succeed.
\<close>

definition log_traffic_data :: "nat \<Rightarrow> world \<Rightarrow> world" where
  "log_traffic_data self w =
     (let timestamp = clock w;
          entry = \<lparr>le_intersection = name (heap w self),
                   le_state = state (heap w self),
                   le_timestamp = timestamp,
                   le_vehicle_count = length (vehicle_count_history (heap w self))\<rparr>;
          w1 = w\<lparr>log_file := log_file w @ [entry]\<rparr>
      in print (LoggedData entry) w1)"

text \<open>The assignment \<open>self.state = ...\<close> on the object at address \<open>self\<close>.\<close>

definition set_state :: "nat \<Rightarrow> light_state \<Rightarrow> world \<Rightarrow> world" where
  "set_state self s w = w\<lparr>heap := (heap w)(self := (heap w self)\<lparr>state := s\<rparr>)\<rparr>"

definition switch_to_green :: "nat \<Rightarrow> world \<Rightarrow> world" where
  "switch_to_green self w =
     (let w1 = set_state self GREEN w;
          w2 = print (LightNow (name (heap w1 self)) GREEN) w1
      in log_traffic_data self w2)"

definition switch_to_red :: "nat \<Rightarrow> world \<Rightarrow> world" where
  "switch_to_red self w =
     (let w1 = set_state self RED w;
          w2 = print (LightNow (name (heap w1 self)) RED) w1
      in log_traffic_data self w2)"

definition switch_to_yellow :: "nat \<Rightarrow> world \<Rightarrow> world" where
  "switch_to_yellow self w =
     (let w1 = set_state self YELLOW w;
          w2 = print (LightNow (name (heap w1 self)) YELLOW) w1
      in log_traffic_data self w2)"

definition update_vehicle_count :: "nat \<Rightarrow> int \<Rightarrow> world \<Rightarrow> world" where
  "update_vehicle_count self count w =
     w\<lparr>heap := (heap w)(self := (heap w self)
          \<lparr>vehicle_count_history := vehicle_count_history (heap w self) @ [count]\<rparr>)\<rparr>"

definition get_vehicle_count :: "nat \<Rightarrow> world \<Rightarrow> nat" where
  "get_vehicle_count self w = length (vehicle_count_history (heap w self))"

subsection \<open>Sensor (lines 75--84)\<close>

record Sensor =
  intersection_name :: string
  vehicle_count :: int

definition Sensor_init :: "string \<Rightarrow> Sensor" where
  "Sensor_init nm = \<lparr>intersection_name = nm, vehicle_count = 0\<rparr>"

text \<open>
  The dictionary \<open>data\<close> that a sensor returns always has the two keys
  \<open>intersection\<close> and \<open>vehicle_count\<close> (line 83).
\<close>

record SensorData =
  sd_intersection :: string
  sd_vehicle_count :: int

text \<open>
  \<open>generate_sensor_data\<close> stores the drawn count in the sensor and returns the
  dictionary \<open>data\<close>: the model returns the dictionary, the sensor after the call and
  the world after the call.
\<close>

definition generate_sensor_data :: "Sensor \<Rightarrow> world \<Rightarrow> SensorData \<times> Sensor \<times> world" where
  "generate_sensor_data self w =
     (let (n, w1) = randint 0 MAX_VEHICLES w;
          self1 = self\<lparr>vehicle_count := n\<rparr>;
          data = \<lparr>sd_intersection = intersection_name self1,
                  sd_vehicle_count = vehicle_count self1\<rparr>
      in (data, self1, w1))"

subsection \<open>TrafficController (lines 88--125)\<close>

text \<open>
  \<open>intersections\<close> is a dictionary from names to \<open>TrafficLight\<close> objects; a Python
  dictionary iterates in insertion order, so it is an association list from names to
  addresses.
\<close>

record TrafficController =
  intersections :: "(string \<times> nat) list"
  iterations :: int
  active_intersections :: "(string \<times> bool) list"

definition TrafficController_init :: "world \<Rightarrow> TrafficController \<times> world" where
  "TrafficController_init w =
     (let (l1, w1) = TrafficLight_init ''Intersection 1'' w;
          (l2, w2) = TrafficLight_init ''Intersection 2'' w1;
          (l3, w3) = TrafficLight_init ''Intersection 3'' w2
      in (\<lparr>intersections = [(''Intersection 1'', l1), (''Intersection 2'', l2),
                             (''Intersection 3'', l3)],
           iterations = 10,
           active_intersections = []\<rparr>, w3))"

text \<open>
  The decision policy, lines 109--117 of \<open>manage_traffic\<close>: the
  \<open>if\<close>/\<open>elif\<close>/\<open>else\<close> on the vehicle count, each branch switching the light and then
  sleeping for the light's duration of that colour.
\<close>

definition decide :: "nat \<Rightarrow> int \<Rightarrow> world \<Rightarrow> world" where
  "decide traffic_light vcount w =
     (if vcount > 60 then
        (let w1 = switch_to_green traffic_light w
         in sleep (green_duration (heap w1 traffic_light)) w1)
      else if vcount = 0 then
        (let w1 = switch_to_red traffic_light w
         in sleep (red_duration (heap w1 traffic_light)) w1)
      else
        (let w1 = switch_to_yellow traffic_light w
         in sleep (yellow_duration (heap w1 traffic_light)) w1))"

text \<open>
  The \<open>for\<close> loop of lines 103--120 over the items of \<open>intersections\<close>;
  \<open>intersection_data\<close> is the dictionary being filled, again in insertion order.
\<close>

fun for_intersections ::
  "(string \<times> nat) list \<Rightarrow> (string \<times> int) list \<Rightarrow> world \<Rightarrow> (string \<times> int) list \<times> world" where
  "for_intersections [] intersection_data w = (intersection_data, w)"
| "for_intersections ((iname, traffic_light) # rest) intersection_data w =
     (let (vcount, w1) = randint 0 MAX_VEHICLES w;
          w2 = update_vehicle_count traffic_light vcount w1;
          w3 = print (CheckingTraffic iname vcount) w2;
          w4 = decide traffic_light vcount w3
      in for_intersections rest
           (AList.update iname vcount intersection_data) w4)"

text \<open>The \<open>while\<close> loop of lines 102--123.\<close>

function while_iterations ::
  "TrafficController \<Rightarrow> int \<Rightarrow> (string \<times> int) list \<Rightarrow> world \<Rightarrow> (string \<times> int) list \<times> world" where
  "while_iterations self iteration_count intersection_data w =
     (if iteration_count < iterations self then
        (let (d1, w1) = for_intersections (intersections self) intersection_data w;
             w2 = print (IterationCompleted (iteration_count + 1) (iterations self)) w1
         in while_iterations self (iteration_count + 1) d1 w2)
      else (intersection_data, w))"
  by pat_completeness auto
termination
  by (relation "measure (\<lambda>(self, iteration_count, d, w). nat (iterations self - iteration_count))")
     auto

definition manage_traffic :: "TrafficController \<Rightarrow> world \<Rightarrow> (string \<times> int) list \<times> world" where
  "manage_traffic self w = while_iterations self 0 [] w"

declare while_iterations.simps [simp del]

subsection \<open>TrafficSystem (lines 128--177)\<close>

text \<open>The dictionary \<open>network_traffic\<close> with its two lists (lines 142--145).\<close>

record NetworkTraffic =
  timestamps :: "nat list"
  vehicle_counts :: "int list"

record TrafficSystem =
  sensor_1 :: Sensor
  sensor_2 :: Sensor
  sensor_3 :: Sensor
  controller :: TrafficController
  system_active_intersections :: "(string \<times> bool) list"
  network_traffic :: NetworkTraffic

definition TrafficSystem_init :: "world \<Rightarrow> TrafficSystem \<times> world" where
  "TrafficSystem_init w =
     (let (c, w1) = TrafficController_init w
      in (\<lparr>sensor_1 = Sensor_init ''Intersection 1'',
           sensor_2 = Sensor_init ''Intersection 2'',
           sensor_3 = Sensor_init ''Intersection 3'',
           controller = c,
           system_active_intersections =
             [(''Intersection 1'', True), (''Intersection 2'', True),
              (''Intersection 3'', True)],
           network_traffic = \<lparr>timestamps = [], vehicle_counts = []\<rparr>\<rparr>, w1))"

text \<open>
  What the network does with one \<open>send_data_to_server\<close> call is decided outside the
  program: the connection and the send succeed, or one of them raises.
\<close>

datatype send_outcome = SendOk | ConnectFails error | SendFails error

text \<open>
  \<open>send_data_to_server\<close> (lines 168--177); \<open>json.dumps\<close> followed by \<open>encode\<close> is the
  parameter \<open>json_dumps\<close>. Every exception is caught and printed.
\<close>

definition send_data_to_server ::
  "(SensorData \<Rightarrow> string) \<Rightarrow> send_outcome \<Rightarrow> SensorData \<Rightarrow> world \<Rightarrow> world" where
  "send_data_to_server json_dumps outcome data w =
     (case outcome of
        SendOk \<Rightarrow> w\<lparr>wire := wire w @ [json_dumps data]\<rparr>
      | ConnectFails e \<Rightarrow> print (ErrorSending e) w
      | SendFails e \<Rightarrow> print (ErrorSending e) w)"

text \<open>
  \<open>start_sensors\<close> (lines 147--166). The stop event is set by another thread; the loop
  runs one cycle for each element of \<open>cycles\<close> (the outcomes of the three sends of that
  cycle) and finds the event set when the list is exhausted.
\<close>

fun start_sensors ::
  "(SensorData \<Rightarrow> string) \<Rightarrow> (send_outcome \<times> send_outcome \<times> send_outcome) list \<Rightarrow>
   TrafficSystem \<Rightarrow> world \<Rightarrow> TrafficSystem \<times> world" where
  "start_sensors json_dumps [] self w = (self, w)"
| "start_sensors json_dumps ((o1, o2, o3) # cycles) self w =
     (let (data_1, s1, w1) = generate_sensor_data (sensor_1 self) w;
          (data_2, s2, w2) = generate_sensor_data (sensor_2 self) w1;
          (data_3, s3, w3) = generate_sensor_data (sensor_3 self) w2;
          current_timestamp = clock w3;
          nt = network_traffic self;
          nt1 = nt\<lparr>timestamps := timestamps nt @ [current_timestamp]\<rparr>;
          nt2 = nt1\<lparr>vehicle_counts := vehicle_counts nt1 @ [sd_vehicle_count data_1]\<rparr>;
          nt3 = nt2\<lparr>vehicle_counts := vehicle_counts nt2 @ [sd_vehicle_count data_2]\<rparr>;
          nt4 = nt3\<lparr>vehicle_counts := vehicle_counts nt3 @ [sd_vehicle_count data_3]\<rparr>;
          self1 = self\<lparr>sensor_1 := s1, sensor_2 := s2, sensor_3 := s3,
                       network_traffic := nt4\<rparr>;
          w4 = send_data_to_server json_dumps o1 data_1 w3;
          w5 = send_data_to_server json_dumps o2 data_2 w4;
          w6 = send_data_to_server json_dumps o3 data_3 w5;
          w7 = sleep 5 w6
      in start_sensors json_dumps cycles self1 w7)"

subsection \<open>Server (lines 179--217)\<close>

record Server =
  traffic_controller :: TrafficController

definition Server_init :: "world \<Rightarrow> Server \<times> world" where
  "Server_init w =
     (let (c, w1) = TrafficController_init w
      in (\<lparr>traffic_controller = c\<rparr>, w1))"

text \<open>
  Subscripting a decoded value with a string key (\<open>traffic_data['intersection']\<close>):
  a dictionary without the key raises \<open>KeyError\<close>, any other value raises \<open>TypeError\<close>.
\<close>

fun getitem :: "json \<Rightarrow> string \<Rightarrow> error + json" where
  "getitem (JObject kvs) k =
     (case map_of kvs k of None \<Rightarrow> Inl (KeyError k) | Some v \<Rightarrow> Inr v)"
| "getitem _ k = Inl TypeError"

text \<open>
  What the network does in one iteration of the receiver loop: \<open>accept\<close> times out, or
  raises another exception, or returns a connection; in the last case
  \<open>recv(1024).decode()\<close> raises or returns the text received.
\<close>

datatype accept_event =
    AcceptTimeout
  | AcceptFails error
  | Accepted nat "error + string"

text \<open>
  The body of the \<open>try\<close> (lines 197--208). It returns the exception raised, if any, the
  local variable \<open>client_socket\<close> (\<open>None\<close> while it is unbound) and the world.
  \<open>json.loads\<close> is the parameter \<open>json_loads\<close>.
\<close>

definition try_body ::
  "(string \<Rightarrow> error + json) \<Rightarrow> Server \<Rightarrow> accept_event \<Rightarrow> nat option \<Rightarrow> world \<Rightarrow>
   error option \<times> nat option \<times> world" where
  "try_body json_loads self ev client_socket w =
     (case ev of
        AcceptTimeout \<Rightarrow> (Some SocketTimeout, client_socket, w)
      | AcceptFails e \<Rightarrow> (Some e, client_socket, w)
      | Accepted c received \<Rightarrow>
          (let w1 = w\<lparr>open_conns := insert c (open_conns w)\<rparr>;
               cs = Some c
           in case received of
                Inl e \<Rightarrow> (Some e, cs, w1)
              | Inr data \<Rightarrow>
                  if data \<noteq> [] then
                    (case json_loads data of
                       Inl e \<Rightarrow> (Some e, cs, w1)
                     | Inr traffic_data \<Rightarrow>
                         (case getitem traffic_data ''intersection'' of
                            Inl e \<Rightarrow> (Some e, cs, w1)
                          | Inr iname \<Rightarrow>
                              (case getitem traffic_data ''vehicle_count'' of
                                 Inl e \<Rightarrow> (Some e, cs, w1)
                               | Inr vcount \<Rightarrow>
                                   (let w2 = print (ReceivedData iname vcount) w1;
                                        (d, w3) = manage_traffic (traffic_controller self) w2
                                    in (None, cs, w3)))))
                  else (None, cs, w1)))"

text \<open>
  The two \<open>except\<close> clauses (lines 210--213): a timeout continues silently, any other
  exception is printed.
\<close>

definition except_clauses :: "error option \<Rightarrow> world \<Rightarrow> world" where
  "except_clauses raised w =
     (case raised of
        None \<Rightarrow> w
      | Some e \<Rightarrow> if e = SocketTimeout then w else print (ErrorProcessing e) w)"

text \<open>
  The \<open>finally\<close> clause (lines 214--215): \<open>client_socket.close()\<close>. Reading the local
  variable while it is unbound raises \<open>UnboundLocalError\<close>; closing a socket that is
  already closed does nothing.
\<close>

definition finally_clause :: "nat option \<Rightarrow> world \<Rightarrow> error + world" where
  "finally_clause client_socket w =
     (case client_socket of
        None \<Rightarrow> Inl (UnboundLocalError ''client_socket'')
      | Some c \<Rightarrow> Inr (w\<lparr>open_conns := open_conns w - {c}\<rparr>))"

text \<open>
  One iteration of the receiver loop: the exception that leaves the \<open>try\<close> statement, if
  any, the variable \<open>client_socket\<close> and the world afterwards.
\<close>

definition server_iteration ::
  "(string \<Rightarrow> error + json) \<Rightarrow> Server \<Rightarrow> accept_event \<Rightarrow> nat option \<Rightarrow> world \<Rightarrow>
   error option \<times> nat option \<times> world" where
  "server_iteration json_loads self ev client_socket w =
     (let (raised, cs, w1) = try_body json_loads self ev client_socket w;
          w2 = except_clauses raised w1
      in case finally_clause cs w2 of
           Inl e \<Rightarrow> (Some e, cs, w2)
         | Inr w3 \<Rightarrow> (None, cs, w3))"

text \<open>
  The \<open>while\<close> loop of lines 195--215: one iteration for each event, and the stop event
  found set when the events are exhausted. An exception that leaves an iteration leaves
  the loop and \<open>start_server\<close>.
\<close>

fun server_loop ::
  "(string \<Rightarrow> error + json) \<Rightarrow> Server \<Rightarrow> accept_event list \<Rightarrow> nat option \<Rightarrow> world \<Rightarrow>
   error option \<times> world" where
  "server_loop json_loads self [] client_socket w = (None, w)"
| "server_loop json_loads self (ev # evs) client_socket w =
     (case server_iteration json_loads self ev client_socket w of
        (Some e, cs, w1) \<Rightarrow> (Some e, w1)
      | (None, cs, w1) \<Rightarrow> server_loop json_loads self evs cs w1)"

text \<open>
  \<open>start_server\<close> (lines 184--217). \<open>bind_result\<close> is the exception that \<open>bind\<close> or
  \<open>listen\<close> raises, if any. The result is the exception that escapes, if any, and the
  world afterwards. The listening socket itself is not part of the world, so the final
  \<open>server.close()\<close> leaves no trace.
\<close>

definition start_server ::
  "(string \<Rightarrow> error + json) \<Rightarrow> error option \<Rightarrow> accept_event list \<Rightarrow> Server \<Rightarrow> world \<Rightarrow>
   error option \<times> world" where
  "start_server json_loads bind_result evs self w =
     (case bind_result of
        Some e \<Rightarrow> (None, print (ErrorStarting e) w)
      | None \<Rightarrow> server_loop json_loads self evs None (print ServerListening w))"

subsection \<open>Reporting (line 264)\<close>

text \<open>The dictionary comprehension of \<open>plot_traffic_light_state\<close>.\<close>

definition traffic_light_states :: "(string \<times> nat) list \<Rightarrow> world \<Rightarrow> (string \<times> light_state) list" where
  "traffic_light_states ints w =
     foldl (\<lambda>d (k, a). AList.update (name (heap w a)) (state (heap w a)) d) [] ints"

subsection \<open>Observations on a run\<close>

text \<open>
  A decision evaluation is one pass through the policy for one intersection. Each pass
  prints exactly one \<open>Checking Traffic\<close> line (line 107) before it decides, so the
  evaluations of a run are the \<open>CheckingTraffic\<close> lines of its output.
\<close>

fun is_check :: "out_line \<Rightarrow> bool" where
  "is_check (CheckingTraffic n v) = True"
| "is_check _ = False"

definition decision_evaluations :: "out_line list \<Rightarrow> nat" where
  "decision_evaluations out = length (filter is_check out)"

text \<open>The evaluations for one intersection name.\<close>

fun is_check_for :: "string \<Rightarrow> out_line \<Rightarrow> bool" where
  "is_check_for nm (CheckingTraffic n v) = (n = nm)"
| "is_check_for nm _ = False"

definition evaluations_for :: "string \<Rightarrow> out_line list \<Rightarrow> nat" where
  "evaluations_for nm out = length (filter (is_check_for nm) out)"

text \<open>The count of the last \<open>Checking Traffic\<close> line printed for a name, if there is one.\<close>

fun last_checked :: "string \<Rightarrow> out_line list \<Rightarrow> int option" where
  "last_checked nm [] = None"
| "last_checked nm (CheckingTraffic n v # ls) =
     (case last_checked nm ls of
        Some u \<Rightarrow> Some u
      | None \<Rightarrow> if n = nm then Some v else None)"
| "last_checked nm (_ # ls) = last_checked nm ls"

text \<open>
  The world after one pass through the body of the \<open>for\<close> loop (lines 104--117) for the
  intersection \<open>nm\<close> with the light at address \<open>a\<close>.
\<close>

definition body :: "string \<Rightarrow> nat \<Rightarrow> world \<Rightarrow> world" where
  "body nm a w = (let v = fst (randint 0 MAX_VEHICLES w) in
     decide a v (print (CheckingTraffic nm v) (update_vehicle_count a v (snd (randint 0 MAX_VEHICLES w)))))"

text \<open>\<open>last_checked\<close> as a map from names to counts.\<close>

definition checked :: "out_line list \<Rightarrow> string \<Rightarrow> int option" where
  "checked out = (\<lambda>nm. last_checked nm out)"

text \<open>
  A world in which nothing has happened yet, for a given random generator: no output, an
  empty log, no object allocated, no connection open.
\<close>

definition initial_world :: "(nat \<Rightarrow> nat) \<Rightarrow> world" where
  "initial_world r =
     \<lparr>clock = 0, log_file = [], stdout = [], rand = r, rand_pos = 0,
      heap = (\<lambda>a. \<lparr>state = RED, name = [], green_duration = 0, red_duration = 0,
                     yellow_duration = 0, vehicle_count_history = []\<rparr>),
      next_addr = 0, open_conns = {}, wire = []\<rparr>"

text \<open>
  The operations that the program performs on a light, and a sequence of them applied to
  the light at address \<open>a\<close>.
\<close>

datatype light_op = SwitchToGreen | SwitchToRed | SwitchToYellow | UpdateVehicleCount int

fun apply_op :: "nat \<Rightarrow> light_op \<Rightarrow> world \<Rightarrow> world" where
  "apply_op a SwitchToGreen w = switch_to_green a w"
| "apply_op a SwitchToRed w = switch_to_red a w"
| "apply_op a SwitchToYellow w = switch_to_yellow a w"
| "apply_op a (UpdateVehicleCount n) w = update_vehicle_count a n w"

fun run_ops :: "nat \<Rightarrow> light_op list \<Rightarrow> world \<Rightarrow> world" where
  "run_ops a [] w = w"
| "run_ops a (op # ops) w = run_ops a ops (apply_op a op w)"

fun is_switch :: "light_op \<Rightarrow> bool" where
  "is_switch (UpdateVehicleCount n) = False"
| "is_switch _ = True"

text \<open>
  Lines 202--204 together: \<open>json.loads\<close> and the two subscripts, which decode the text
  received into the intersection and the vehicle count of a telemetry record, or raise.
\<close>

definition decode :: "(string \<Rightarrow> error + json) \<Rightarrow> string \<Rightarrow> error + json \<times> json" where
  "decode json_loads data =
     (case json_loads data of
        Inl e \<Rightarrow> Inl e
      | Inr traffic_data \<Rightarrow>
          (case getitem traffic_data ''intersection'' of
             Inl e \<Rightarrow> Inl e
           | Inr iname \<Rightarrow>
               (case getitem traffic_data ''vehicle_count'' of
                  Inl e \<Rightarrow> Inl e
                | Inr vcount \<Rightarrow> Inr (iname, vcount))))"

text \<open>A stand-in for \<open>json.loads\<close> that decodes one payload and rejects every other text.\<close>

definition sample_loads :: "string \<Rightarrow> error + json" where
  "sample_loads s =
     (if s = ''telemetry''
      then Inr (JObject [(''intersection'', JString ''Intersection 1''),
                         (''vehicle_count'', JInt 3)])
      else Inl JSONDecodeError)"

text \<open>The world in which the raw choice that the generator makes next is \<open>r\<close>.\<close>

definition next_choice :: "nat \<Rightarrow> world \<Rightarrow> world" where
  "next_choice r w = w\<lparr>rand := (rand w)(rand_pos w := r)\<rparr>"

text \<open>The world without what has been printed.\<close>

definition silent :: "world \<Rightarrow> world" where
  "silent w = w\<lparr>stdout := []\<rparr>"

section \<open>Properties\<close>

subsection \<open>The policy and the loop body\<close>

lemmas effect_defs = print_def sleep_def set_state_def log_traffic_data_def
  switch_to_green_def switch_to_red_def switch_to_yellow_def update_vehicle_count_def

lemma decide_log_file:
  "log_file (decide a v w) = log_file w @
     [\<lparr>le_intersection = name (heap w a),
       le_state = (if v > 60 then GREEN else if v = 0 then RED else YELLOW),
       le_timestamp = clock w,
       le_vehicle_count = length (vehicle_count_history (heap w a))\<rparr>]"
  by (simp add: decide_def effect_defs Let_def)

lemma decide_heap:
  "heap (decide a v w) = (heap w)(a := (heap w a)
     \<lparr>state := (if v > 60 then GREEN else if v = 0 then RED else YELLOW)\<rparr>)"
  by (simp add: decide_def effect_defs Let_def)

lemma decide_stdout:
  "stdout (decide a v w) = stdout w @
     [LightNow (name (heap w a)) (if v > 60 then GREEN else if v = 0 then RED else YELLOW),
      LoggedData \<lparr>le_intersection = name (heap w a),
       le_state = (if v > 60 then GREEN else if v = 0 then RED else YELLOW),
       le_timestamp = clock w,
       le_vehicle_count = length (vehicle_count_history (heap w a))\<rparr>]"
  by (simp add: decide_def effect_defs Let_def)

lemma decide_frame:
  "rand (decide a v w) = rand w" "rand_pos (decide a v w) = rand_pos w"
  "next_addr (decide a v w) = next_addr w" "open_conns (decide a v w) = open_conns w"
  "wire (decide a v w) = wire w"
  by (simp_all add: decide_def effect_defs Let_def)

lemma randint_range: "a \<le> b \<Longrightarrow> a \<le> fst (randint a b w) \<and> fst (randint a b w) \<le> b"
proof -
  assume ab: "a \<le> b"
  then have pos: "0 < nat (b - a + 1)" by simp
  have "rand w (rand_pos w) mod nat (b - a + 1) < nat (b - a + 1)"
    using pos by (rule mod_less_divisor)
  then have "int (rand w (rand_pos w) mod nat (b - a + 1)) < b - a + 1"
    using ab by linarith
  then show ?thesis by (simp add: randint_def)
qed

lemma randint_world:
  "snd (randint a b w) = w\<lparr>rand_pos := rand_pos w + 1\<rparr>"
  by (simp add: randint_def)

lemma for_Cons:
  "for_intersections ((nm, a) # rest) d w =
     for_intersections rest (AList.update nm (fst (randint 0 MAX_VEHICLES w)) d) (body nm a w)"
  by (simp add: body_def Let_def split_beta)

lemma last_checked_append:
  "last_checked nm (xs @ ys) =
     (case last_checked nm ys of Some u \<Rightarrow> Some u | None \<Rightarrow> last_checked nm xs)"
  by (induction nm xs rule: last_checked.induct) (auto split: option.splits)

lemma checked_append: "checked (xs @ ys) = checked xs ++ checked ys"
  by (rule ext) (simp add: checked_def last_checked_append map_add_def)

lemma checked_Nil: "checked [] = Map.empty"
  by (simp add: checked_def)

lemma body_stdout:
  "\<exists>s e. stdout (body nm a w) = stdout w @
     [CheckingTraffic nm (fst (randint 0 MAX_VEHICLES w)), LightNow (name (heap w a)) s, LoggedData e]"
  by (simp add: body_def Let_def decide_stdout effect_defs randint_world)

lemma body_rand: "rand (body nm a w) = rand w" "rand_pos (body nm a w) = rand_pos w + 1"
  by (simp_all add: body_def Let_def decide_frame effect_defs randint_world)

lemma body_heap:
  "heap (body nm a w) = (heap w)(a := (heap w a)
     \<lparr>vehicle_count_history := vehicle_count_history (heap w a) @ [fst (randint 0 MAX_VEHICLES w)],
      state := (if fst (randint 0 MAX_VEHICLES w) = 0 then RED else YELLOW)\<rparr>)"
proof -
  have "fst (randint 0 MAX_VEHICLES w) \<le> MAX_VEHICLES"
    using randint_range [of 0 MAX_VEHICLES w] by (simp add: MAX_VEHICLES_def)
  then have "\<not> fst (randint 0 MAX_VEHICLES w) > 60" by (simp add: MAX_VEHICLES_def)
  then show ?thesis
    by (simp add: body_def Let_def decide_heap effect_defs randint_world)
qed

lemma body_log_file:
  "log_file (body nm a w) = log_file w @
     [\<lparr>le_intersection = name (heap w a),
       le_state = (if fst (randint 0 MAX_VEHICLES w) = 0 then RED else YELLOW),
       le_timestamp = clock w,
       le_vehicle_count = Suc (length (vehicle_count_history (heap w a)))\<rparr>]"
proof -
  have "fst (randint 0 MAX_VEHICLES w) \<le> MAX_VEHICLES"
    using randint_range [of 0 MAX_VEHICLES w] by (simp add: MAX_VEHICLES_def)
  then have "\<not> fst (randint 0 MAX_VEHICLES w) > 60" by (simp add: MAX_VEHICLES_def)
  then show ?thesis
    by (simp add: body_def Let_def decide_log_file effect_defs randint_world)
qed

lemma body_frame:
  "next_addr (body nm a w) = next_addr w" "open_conns (body nm a w) = open_conns w"
  "wire (body nm a w) = wire w"
  by (simp_all add: body_def Let_def decide_frame effect_defs randint_world)

lemma for_rand_pos:
  "rand_pos (snd (for_intersections xs d w)) = rand_pos w + length xs"
  by (induction xs arbitrary: d w) (auto simp: for_Cons body_rand simp del: for_intersections.simps(2))

lemma for_rand:
  "rand (snd (for_intersections xs d w)) = rand w"
  by (induction xs arbitrary: d w) (auto simp: for_Cons body_rand simp del: for_intersections.simps(2))

lemma for_log_length:
  "length (log_file (snd (for_intersections xs d w))) = length (log_file w) + length xs"
  by (induction xs arbitrary: d w) (auto simp: for_Cons body_log_file simp del: for_intersections.simps(2))

lemma for_stdout:
  "\<exists>ext. stdout (snd (for_intersections xs d w)) = stdout w @ ext
     \<and> decision_evaluations ext = length xs
     \<and> (\<forall>nm. evaluations_for nm ext = length (filter (\<lambda>kv. fst kv = nm) xs))
     \<and> map_of (fst (for_intersections xs d w)) = map_of d ++ checked ext"
proof (induction xs arbitrary: d w)
  case Nil
  show ?case by (simp add: decision_evaluations_def evaluations_for_def checked_Nil)
next
  case (Cons x xs)
  obtain nm a where x: "x = (nm, a)" by (cases x)
  let ?v = "fst (randint 0 MAX_VEHICLES w)"
  obtain s e where b: "stdout (body nm a w) = stdout w @ [CheckingTraffic nm ?v, LightNow (name (heap w a)) s, LoggedData e]"
    using body_stdout by blast
  let ?b = "[CheckingTraffic nm ?v, LightNow (name (heap w a)) s, LoggedData e]"
  obtain ext where ih: "stdout (snd (for_intersections xs (AList.update nm ?v d) (body nm a w))) = stdout (body nm a w) @ ext"
    "decision_evaluations ext = length xs"
    "\<forall>k. evaluations_for k ext = length (filter (\<lambda>kv. fst kv = k) xs)"
    "map_of (fst (for_intersections xs (AList.update nm ?v d) (body nm a w))) = map_of (AList.update nm ?v d) ++ checked ext"
    using Cons.IH [of "AList.update nm ?v d" "body nm a w"] by blast
  have cb: "checked ?b = [nm \<mapsto> ?v]"
    by (rule ext) (simp add: checked_def)
  have m: "map_of (AList.update nm ?v d) ++ checked ext = map_of d ++ checked (?b @ ext)"
    by (simp add: checked_append cb update_conv' del: append.simps) 
  show ?case
    apply (rule exI [of _ "?b @ ext"])
    using ih b m by (auto simp: x for_Cons decision_evaluations_def evaluations_for_def simp del: for_intersections.simps(2))
qed

lemma for_keys_old:
  "set (map fst xs) \<subseteq> set (map fst d) \<Longrightarrow> map fst (fst (for_intersections xs d w)) = map fst d"
proof (induction xs arbitrary: d w)
  case Nil
  show ?case by simp
next
  case (Cons x xs)
  obtain nm a where x: "x = (nm, a)" by (cases x)
  let ?d = "AList.update nm (fst (randint 0 MAX_VEHICLES w)) d"
  have k: "map fst ?d = map fst d" using Cons.prems by (simp add: x update_keys)
  have "map fst (fst (for_intersections xs ?d (body nm a w))) = map fst ?d"
    using Cons.prems by (intro Cons.IH) (simp add: k)
  then show ?case by (simp add: x for_Cons k del: for_intersections.simps(2))
qed

lemma for_keys_new:
  "distinct (map fst xs) \<Longrightarrow> set (map fst xs) \<inter> set (map fst d) = {} \<Longrightarrow>
   map fst (fst (for_intersections xs d w)) = map fst d @ map fst xs"
proof (induction xs arbitrary: d w)
  case Nil
  show ?case by simp
next
  case (Cons x xs)
  obtain nm a where x: "x = (nm, a)" by (cases x)
  let ?d = "AList.update nm (fst (randint 0 MAX_VEHICLES w)) d"
  have k: "map fst ?d = map fst d @ [nm]" using Cons.prems by (simp add: x update_keys)
  have "map fst (fst (for_intersections xs ?d (body nm a w))) = map fst ?d @ map fst xs"
    using Cons.prems by (intro Cons.IH) (auto simp: k x)
  then show ?case by (simp add: x for_Cons k del: for_intersections.simps(2))
qed

lemma for_heap_frame:
  "a \<notin> snd ` set xs \<Longrightarrow> heap (snd (for_intersections xs d w)) a = heap w a"
  by (induction xs arbitrary: d w)
     (auto simp: for_Cons body_heap simp del: for_intersections.simps(2))

lemma for_heap_green:
  "state (heap (snd (for_intersections xs d w)) a) = GREEN \<Longrightarrow> state (heap w a) = GREEN"
proof (induction xs arbitrary: d w)
  case Nil
  then show ?case by simp
next
  case (Cons x xs)
  obtain nm b where x: "x = (nm, b)" by (cases x)
  have "state (heap (body nm b w) a) = GREEN"
    using Cons.prems Cons.IH by (simp add: x for_Cons del: for_intersections.simps(2))
  then show ?case by (simp add: body_heap split: if_splits)
qed

lemma for_frame:
  "next_addr (snd (for_intersections xs d w)) = next_addr w"
  "open_conns (snd (for_intersections xs d w)) = open_conns w"
  "wire (snd (for_intersections xs d w)) = wire w"
  by (induction xs arbitrary: d w)
     (auto simp: for_Cons body_frame simp del: for_intersections.simps(2))

subsection \<open>The while loop\<close>

lemma while_unfold_true:
  "i < iterations c \<Longrightarrow> while_iterations c i d w =
     while_iterations c (i + 1) (fst (for_intersections (intersections c) d w))
       (print (IterationCompleted (i + 1) (iterations c)) (snd (for_intersections (intersections c) d w)))"
  by (subst while_iterations.simps) (simp add: split_beta Let_def)

lemma while_unfold_false:
  "\<not> i < iterations c \<Longrightarrow> while_iterations c i d w = (d, w)"
  by (subst while_iterations.simps) simp

lemma while_induct [case_names stop step]:
  assumes stop: "\<And>i d w. \<not> i < iterations c \<Longrightarrow> P i d w"
    and step: "\<And>i d w. i < iterations c \<Longrightarrow>
      P (i + 1) (fst (for_intersections (intersections c) d w))
        (print (IterationCompleted (i + 1) (iterations c))
          (snd (for_intersections (intersections c) d w))) \<Longrightarrow> P i d w"
  shows "P i d w"
proof (induction "nat (iterations c - i)" arbitrary: i d w)
  case 0
  then show ?case by (intro stop) simp
next
  case (Suc n)
  then have lt: "i < iterations c" and n: "n = nat (iterations c - (i + 1))" by simp_all
  show ?case by (rule step [OF lt]) (rule Suc.hyps(1) [OF n])
qed

lemma while_rand_pos:
  "rand_pos (snd (while_iterations c i d w)) =
     rand_pos w + nat (iterations c - i) * length (intersections c)"
proof (induction i d w rule: while_induct [of c])
  case (stop i d w)
  then show ?case by (simp add: while_unfold_false)
next
  case (step i d w)
  have n: "nat (iterations c - i) = Suc (nat (iterations c - (i + 1)))" using step.hyps by simp
  show ?case
    using step.IH
    by (simp only: while_unfold_true [OF step.hyps] n) (simp add: print_def for_rand_pos)
qed

lemma while_stdout:
  "\<exists>ext. stdout (snd (while_iterations c i d w)) = stdout w @ ext
     \<and> decision_evaluations ext = nat (iterations c - i) * length (intersections c)
     \<and> (\<forall>nm. evaluations_for nm ext =
           nat (iterations c - i) * length (filter (\<lambda>kv. fst kv = nm) (intersections c)))
     \<and> map_of (fst (while_iterations c i d w)) = map_of d ++ checked ext"
proof (induction i d w rule: while_induct [of c])
  case (stop i d w)
  then show ?case
    by (simp add: while_unfold_false decision_evaluations_def evaluations_for_def checked_Nil)
next
  case (step i d w)
  let ?xs = "intersections c"
  let ?d1 = "fst (for_intersections ?xs d w)"
  let ?w1 = "snd (for_intersections ?xs d w)"
  let ?line = "IterationCompleted (i + 1) (iterations c)"
  have n: "nat (iterations c - i) = Suc (nat (iterations c - (i + 1)))" using step.hyps by simp
  obtain e1 where e1: "stdout ?w1 = stdout w @ e1" "decision_evaluations e1 = length ?xs"
    "\<forall>nm. evaluations_for nm e1 = length (filter (\<lambda>kv. fst kv = nm) ?xs)"
    "map_of ?d1 = map_of d ++ checked e1"
    using for_stdout [of ?xs d w] by blast
  obtain e2 where e2: "stdout (snd (while_iterations c (i + 1) ?d1 (print ?line ?w1))) =
      stdout (print ?line ?w1) @ e2"
    "decision_evaluations e2 = nat (iterations c - (i + 1)) * length ?xs"
    "\<forall>nm. evaluations_for nm e2 =
        nat (iterations c - (i + 1)) * length (filter (\<lambda>kv. fst kv = nm) ?xs)"
    "map_of (fst (while_iterations c (i + 1) ?d1 (print ?line ?w1))) = map_of ?d1 ++ checked e2"
    using step.IH by blast
  have cl: "checked [?line] = Map.empty" by (rule ext) (simp add: checked_def)
  have m: "map_of ?d1 ++ checked e2 = map_of d ++ checked (e1 @ ?line # e2)"
    using checked_append [of e1 "[?line] @ e2"] checked_append [of "[?line]" e2]
    by (simp add: e1(4) cl)
  show ?case
    apply (rule exI [of _ "e1 @ ?line # e2"])
    apply (simp only: while_unfold_true [OF step.hyps] n)
    using e1 e2 m
    by (simp add: print_def decision_evaluations_def evaluations_for_def)
qed

lemma while_log_length:
  "length (log_file (snd (while_iterations c i d w))) =
     length (log_file w) + nat (iterations c - i) * length (intersections c)"
proof (induction i d w rule: while_induct [of c])
  case (stop i d w)
  then show ?case by (simp add: while_unfold_false)
next
  case (step i d w)
  have n: "nat (iterations c - i) = Suc (nat (iterations c - (i + 1)))" using step.hyps by simp
  show ?case
    using step.IH
    by (simp only: while_unfold_true [OF step.hyps] n) (simp add: print_def for_log_length)
qed

lemma while_keys_old:
  "set (map fst (intersections c)) \<subseteq> set (map fst d) \<Longrightarrow>
   map fst (fst (while_iterations c i d w)) = map fst d"
proof (induction i d w rule: while_induct [of c])
  case (stop i d w)
  then show ?case by (simp add: while_unfold_false)
next
  case (step i d w)
  have k: "map fst (fst (for_intersections (intersections c) d w)) = map fst d"
    using step.prems by (rule for_keys_old)
  show ?case
    using step.IH step.prems by (simp only: while_unfold_true [OF step.hyps] k)
qed

lemma manage_traffic_keys:
  assumes "distinct (map fst (intersections c))" and "0 < iterations c"
  shows "map fst (fst (manage_traffic c w)) = map fst (intersections c)"
proof -
  have k: "map fst (fst (for_intersections (intersections c) [] w)) = map fst (intersections c)"
    using for_keys_new [of "intersections c" "[]" w] assms(1) by simp
  show ?thesis
    unfolding manage_traffic_def while_unfold_true [OF assms(2)]
    using while_keys_old [of c "fst (for_intersections (intersections c) [] w)"] k
    by simp
qed

lemma while_heap_frame:
  "a \<notin> snd ` set (intersections c) \<Longrightarrow> heap (snd (while_iterations c i d w)) a = heap w a"
proof (induction i d w rule: while_induct [of c])
  case (stop i d w)
  then show ?case by (simp add: while_unfold_false)
next
  case (step i d w)
  show ?case
    using step.IH step.prems
    by (simp only: while_unfold_true [OF step.hyps]) (simp add: print_def for_heap_frame)
qed

lemma while_heap_green:
  "state (heap (snd (while_iterations c i d w)) a) = GREEN \<Longrightarrow> state (heap w a) = GREEN"
proof (induction i d w rule: while_induct [of c])
  case (stop i d w)
  then show ?case by (simp add: while_unfold_false)
next
  case (step i d w)
  have "state (heap (snd (for_intersections (intersections c) d w)) a) = GREEN"
    using step.IH step.prems
    by (simp only: while_unfold_true [OF step.hyps]) (simp add: print_def)
  then show ?case by (rule for_heap_green)
qed

lemma while_frame:
  "next_addr (snd (while_iterations c i d w)) = next_addr w"
  "open_conns (snd (while_iterations c i d w)) = open_conns w"
  "wire (snd (while_iterations c i d w)) = wire w"
proof (induction i d w rule: while_induct [of c])
  case (stop i d w)
  {
    case 1 show ?case using stop by (simp add: while_unfold_false)
  next
    case 2 show ?case using stop by (simp add: while_unfold_false)
  next
    case 3 show ?case using stop by (simp add: while_unfold_false)
  }
next
  case (step i d w)
  {
    case 1 show ?case using step.IH(1)
      by (simp only: while_unfold_true [OF step.hyps]) (simp add: print_def for_frame)
  next
    case 2 show ?case using step.IH(2)
      by (simp only: while_unfold_true [OF step.hyps]) (simp add: print_def for_frame)
  next
    case 3 show ?case using step.IH(3)
      by (simp only: while_unfold_true [OF step.hyps]) (simp add: print_def for_frame)
  }
qed

subsection \<open>The decision policy\<close>

text \<open>
  Claim C1. Whatever the light and the world, the state that the decision policy gives the
  light is determined by the vehicle count alone: green above 60, red at 0, yellow from
  1 to 60.
\<close>

theorem C1_decision_policy:
  "(60 < v \<longrightarrow> state (heap (decide a v w) a) = GREEN) \<and>
   (v = 0 \<longrightarrow> state (heap (decide a v w) a) = RED) \<and>
   (0 < v \<and> v \<le> 60 \<longrightarrow> state (heap (decide a v w) a) = YELLOW)"
  by (simp add: decide_heap)

theorem C1_decision_policy_witness:
  "state (heap (decide 0 61 (initial_world (\<lambda>n. n))) 0) = GREEN \<and>
   state (heap (decide 0 0 (initial_world (\<lambda>n. n))) 0) = RED \<and>
   state (heap (decide 0 5 (initial_world (\<lambda>n. n))) 0) = YELLOW"
  using C1_decision_policy [of 61 0 "initial_world (\<lambda>n. n)"]
    C1_decision_policy [of 0 0 "initial_world (\<lambda>n. n)"]
    C1_decision_policy [of 5 0 "initial_world (\<lambda>n. n)"]
  by simp

subsection \<open>Transitions and the log\<close>

lemma switch_log_file:
  "log_file (switch_to_green a w) = log_file w @
      [\<lparr>le_intersection = name (heap w a), le_state = GREEN, le_timestamp = clock w,
        le_vehicle_count = length (vehicle_count_history (heap w a))\<rparr>]"
  "log_file (switch_to_red a w) = log_file w @
      [\<lparr>le_intersection = name (heap w a), le_state = RED, le_timestamp = clock w,
        le_vehicle_count = length (vehicle_count_history (heap w a))\<rparr>]"
  "log_file (switch_to_yellow a w) = log_file w @
      [\<lparr>le_intersection = name (heap w a), le_state = YELLOW, le_timestamp = clock w,
        le_vehicle_count = length (vehicle_count_history (heap w a))\<rparr>]"
  by (simp_all add: effect_defs Let_def)

lemma apply_op_name: "name (heap (apply_op a op w) a) = name (heap w a)"
  by (cases op) (simp_all add: effect_defs Let_def)

lemma apply_op_log_ex:
  "\<exists>e. log_file (apply_op a op w) = log_file w @ e \<and>
       e = replicate (if is_switch op then 1 else 0)
             \<lparr>le_intersection = name (heap w a), le_state = state (heap (apply_op a op w) a),
              le_timestamp = clock w,
              le_vehicle_count = length (vehicle_count_history (heap w a))\<rparr>"
  by (cases op) (simp_all add: effect_defs Let_def)

lemma run_ops_log:
  "\<exists>e. log_file (run_ops a ops w) = log_file w @ e \<and>
       map le_intersection e = replicate (length (filter is_switch ops)) (name (heap w a))"
proof (induction ops arbitrary: w)
  case Nil
  show ?case by simp
next
  case (Cons op ops)
  obtain e1 where e1: "log_file (apply_op a op w) = log_file w @ e1"
    "e1 = replicate (if is_switch op then 1 else 0)
             \<lparr>le_intersection = name (heap w a), le_state = state (heap (apply_op a op w) a),
              le_timestamp = clock w,
              le_vehicle_count = length (vehicle_count_history (heap w a))\<rparr>"
    using apply_op_log_ex [of a op w] by blast
  obtain e2 where e2: "log_file (run_ops a ops (apply_op a op w)) = log_file (apply_op a op w) @ e2"
    "map le_intersection e2 = replicate (length (filter is_switch ops)) (name (heap (apply_op a op w) a))"
    using Cons.IH [of "apply_op a op w"] by blast
  show ?case
    apply (rule exI [of _ "e1 @ e2"])
    using e1 e2 by (simp add: apply_op_name)
qed

text \<open>
  Claim C3. Each of the three switch operations appends exactly one record to the log,
  carrying the light's name, its new state, the clock reading and the length of the
  light's observation history. Over any sequence of operations on a light (switches and
  count updates), the log keeps what it had, grows by exactly the number of switches, and
  every record added carries that light's name.
\<close>

theorem C3_one_record_per_transition:
  "log_file (switch_to_green a w) = log_file w @
      [\<lparr>le_intersection = name (heap w a), le_state = GREEN, le_timestamp = clock w,
        le_vehicle_count = length (vehicle_count_history (heap w a))\<rparr>] \<and>
   log_file (switch_to_red a w) = log_file w @
      [\<lparr>le_intersection = name (heap w a), le_state = RED, le_timestamp = clock w,
        le_vehicle_count = length (vehicle_count_history (heap w a))\<rparr>] \<and>
   log_file (switch_to_yellow a w) = log_file w @
      [\<lparr>le_intersection = name (heap w a), le_state = YELLOW, le_timestamp = clock w,
        le_vehicle_count = length (vehicle_count_history (heap w a))\<rparr>] \<and>
   state (heap (switch_to_green a w) a) = GREEN \<and>
   state (heap (switch_to_red a w) a) = RED \<and>
   state (heap (switch_to_yellow a w) a) = YELLOW \<and>
   take (length (log_file w)) (log_file (run_ops a ops w)) = log_file w \<and>
   length (log_file (run_ops a ops w)) = length (log_file w) + length (filter is_switch ops) \<and>
   map le_intersection (drop (length (log_file w)) (log_file (run_ops a ops w))) =
     replicate (length (filter is_switch ops)) (name (heap w a))"
proof -
  obtain e where e: "log_file (run_ops a ops w) = log_file w @ e"
    "map le_intersection e = replicate (length (filter is_switch ops)) (name (heap w a))"
    using run_ops_log [of a ops w] by blast
  have "length e = length (filter is_switch ops)"
    using arg_cong [OF e(2), of length] by simp
  then show ?thesis
    using e by (simp add: switch_log_file) (simp add: effect_defs Let_def)
qed

subsection \<open>A run of a freshly built controller\<close>

lemma TrafficController_init_fst:
  "fst (TrafficController_init w) =
     \<lparr>intersections = [(''Intersection 1'', next_addr w), (''Intersection 2'', next_addr w + 1),
                       (''Intersection 3'', next_addr w + 2)],
      iterations = 10, active_intersections = []\<rparr>"
  by (simp add: TrafficController_init_def TrafficLight_init_def Let_def)

lemma TrafficController_init_heap:
  "heap (snd (TrafficController_init w)) a =
     (if a = next_addr w \<or> a = next_addr w + 1 \<or> a = next_addr w + 2 then
        \<lparr>state = RED,
         name = (if a = next_addr w then ''Intersection 1''
                 else if a = next_addr w + 1 then ''Intersection 2'' else ''Intersection 3''),
         green_duration = GREEN_LIGHT_DURATION, red_duration = RED_LIGHT_DURATION,
         yellow_duration = YELLOW_LIGHT_DURATION, vehicle_count_history = []\<rparr>
      else heap w a)"
  by (simp add: TrafficController_init_def TrafficLight_init_def Let_def)

lemma TrafficController_init_frame:
  "next_addr (snd (TrafficController_init w)) = next_addr w + 3"
  "stdout (snd (TrafficController_init w)) = stdout w"
  "log_file (snd (TrafficController_init w)) = log_file w"
  "rand (snd (TrafficController_init w)) = rand w"
  "rand_pos (snd (TrafficController_init w)) = rand_pos w"
  "clock (snd (TrafficController_init w)) = clock w"
  "open_conns (snd (TrafficController_init w)) = open_conns w"
  "wire (snd (TrafficController_init w)) = wire w"
  by (simp_all add: TrafficController_init_def TrafficLight_init_def Let_def)

lemma manage_traffic_stdout:
  "\<exists>ext. stdout (snd (manage_traffic c w)) = stdout w @ ext
     \<and> decision_evaluations ext = nat (iterations c) * length (intersections c)
     \<and> (\<forall>nm. evaluations_for nm ext =
           nat (iterations c) * length (filter (\<lambda>kv. fst kv = nm) (intersections c)))
     \<and> (\<forall>nm. map_of (fst (manage_traffic c w)) nm = last_checked nm ext)"
proof -
  obtain ext where e: "stdout (snd (while_iterations c 0 [] w)) = stdout w @ ext"
     "decision_evaluations ext = nat (iterations c - 0) * length (intersections c)"
     "\<forall>nm. evaluations_for nm ext =
           nat (iterations c - 0) * length (filter (\<lambda>kv. fst kv = nm) (intersections c))"
     "map_of (fst (while_iterations c 0 [] w)) = map_of [] ++ checked ext"
    using while_stdout [of c 0 "[]" w] by blast
  have "\<forall>nm. map_of (fst (while_iterations c 0 [] w)) nm = last_checked nm ext"
    using e(4) by (simp add: checked_def)
  then show ?thesis
    unfolding manage_traffic_def using e(1,2,3) by (intro exI [of _ ext]) simp
qed

text \<open>
  Claim C2. A controller as its constructor builds it (10 iterations, 3 intersections)
  evaluates the policy 30 times in one \<open>manage_traffic\<close> call, 10 times for each
  intersection, drawing 30 counts and logging 30 transitions; the dictionary returned has exactly the three
  intersection names as keys, and each one is bound to the count of the last
  \<open>Checking Traffic\<close> line printed for that intersection during the call.
\<close>

theorem C2_default_run:
  "let (c, w1) = TrafficController_init w;
       (d, w2) = manage_traffic c w1;
       out = drop (length (stdout w1)) (stdout w2)
   in decision_evaluations out = 30 \<and>
      evaluations_for ''Intersection 1'' out = 10 \<and>
      evaluations_for ''Intersection 2'' out = 10 \<and>
      evaluations_for ''Intersection 3'' out = 10 \<and>
      rand_pos w2 = rand_pos w1 + 30 \<and>
      length (log_file w2) = length (log_file w1) + 30 \<and>
      map fst d = [''Intersection 1'', ''Intersection 2'', ''Intersection 3''] \<and>
      map_of d ''Intersection 1'' = last_checked ''Intersection 1'' out \<and>
      map_of d ''Intersection 2'' = last_checked ''Intersection 2'' out \<and>
      map_of d ''Intersection 3'' = last_checked ''Intersection 3'' out"
proof -
  let ?c = "fst (TrafficController_init w)"
  let ?w1 = "snd (TrafficController_init w)"
  let ?d = "fst (manage_traffic ?c ?w1)"
  let ?w2 = "snd (manage_traffic ?c ?w1)"
  have c: "?c = \<lparr>intersections = [(''Intersection 1'', next_addr w),
        (''Intersection 2'', next_addr w + 1), (''Intersection 3'', next_addr w + 2)],
      iterations = 10, active_intersections = []\<rparr>"
    by (rule TrafficController_init_fst)
  obtain ext where e: "stdout ?w2 = stdout ?w1 @ ext"
     "decision_evaluations ext = nat (iterations ?c) * length (intersections ?c)"
     "\<forall>nm. evaluations_for nm ext =
           nat (iterations ?c) * length (filter (\<lambda>kv. fst kv = nm) (intersections ?c))"
     "\<forall>nm. map_of ?d nm = last_checked nm ext"
    using manage_traffic_stdout [of ?c ?w1] by blast
  have out: "drop (length (stdout ?w1)) (stdout ?w2) = ext" by (simp add: e(1))
  have keys: "map fst ?d = map fst (intersections ?c)"
    by (rule manage_traffic_keys) (simp_all add: c)
  have pos: "rand_pos ?w2 = rand_pos ?w1 + 30"
    unfolding manage_traffic_def while_rand_pos by (simp add: c)
  have len: "length (log_file ?w2) = length (log_file ?w1) + 30"
    unfolding manage_traffic_def while_log_length by (simp add: c)
  have "decision_evaluations ext = 30" using e(2) by (simp add: c)
  moreover have "evaluations_for ''Intersection 1'' ext = 10"
     "evaluations_for ''Intersection 2'' ext = 10" "evaluations_for ''Intersection 3'' ext = 10"
    using e(3) by (simp_all add: c)
  moreover have "map fst ?d = [''Intersection 1'', ''Intersection 2'', ''Intersection 3'']"
    using keys by (simp add: c)
  ultimately show ?thesis
    using e(4) pos len by (simp add: Let_def split_beta out)
qed

subsection \<open>The sensor and the producer loop\<close>

lemma generate_sensor_data_eq:
  "generate_sensor_data s w =
     (\<lparr>sd_intersection = intersection_name s, sd_vehicle_count = fst (randint 0 MAX_VEHICLES w)\<rparr>,
      s\<lparr>vehicle_count := fst (randint 0 MAX_VEHICLES w)\<rparr>,
      w\<lparr>rand_pos := rand_pos w + 1\<rparr>)"
  by (simp add: generate_sensor_data_def randint_def Let_def)

text \<open>
  Claim C6 as stated fails: a fresh sensor has \<open>vehicle_count = 0\<close>; after one call in
  which the generator draws 3 the sensor holds 3, so its state is not what it was.
\<close>

theorem C6_sample_counterexample:
  "fst (snd (generate_sensor_data (Sensor_init ''Intersection 1'') (initial_world (\<lambda>n. 3))))
     \<noteq> Sensor_init ''Intersection 1'' \<and>
   vehicle_count (fst (snd (generate_sensor_data (Sensor_init ''Intersection 1'')
       (initial_world (\<lambda>n. 3))))) = 3 \<and>
   vehicle_count (Sensor_init ''Intersection 1'') = 0"
  by (simp add: generate_sensor_data_def randint_def Let_def Sensor_init_def initial_world_def
      MAX_VEHICLES_def)

text \<open>
  How often each count is drawn: among the first \<open>n * m\<close> raw choices exactly \<open>m\<close> leave
  a given remainder modulo \<open>n\<close>.
\<close>

lemma residue_card:
  assumes "j < n"
  shows "card {r. r < n * m \<and> r mod n = j} = m"
proof -
  have "{r. r < n * m \<and> r mod n = j} = (\<lambda>q. n * q + j) ` {..<m}"
  proof (intro set_eqI iffI)
    fix r
    assume "r \<in> {r. r < n * m \<and> r mod n = j}"
    then have lt: "r < n * m" and md: "r mod n = j" by simp_all
    have n: "0 < n" using assms by simp
    have "r div n < m" using lt n by (simp add: div_less_iff_less_mult mult.commute)
    moreover have "r = n * (r div n) + j" using md by (metis mult_div_mod_eq)
    ultimately show "r \<in> (\<lambda>q. n * q + j) ` {..<m}" by blast
  next
    fix r
    assume "r \<in> (\<lambda>q. n * q + j) ` {..<m}"
    then obtain q where q: "q < m" and r: "r = n * q + j" by blast
    have "n * q + j < n * (Suc q)" using assms by simp
    also have "\<dots> \<le> n * m" using q by (simp only: Suc_leI mult_le_mono2)
    finally have "r < n * m" by (simp add: r)
    moreover have "r mod n = j" using assms by (simp add: r)
    ultimately show "r \<in> {r. r < n * m \<and> r mod n = j}" by simp
  qed
  moreover have "inj_on (\<lambda>q. n * q + j) {..<m}"
    using assms by (auto simp: inj_on_def)
  ultimately show ?thesis by (simp add: card_image)
qed

lemma sample_next_choice:
  "sd_vehicle_count (fst (generate_sensor_data s (next_choice r w))) = int (r mod 6)"
  by (simp add: generate_sensor_data_def randint_def next_choice_def Let_def MAX_VEHICLES_def)

lemma sample_fibre:
  assumes "0 \<le> k" and "k \<le> MAX_VEHICLES"
  shows "card {r. r < 6 * m \<and>
           sd_vehicle_count (fst (generate_sensor_data s (next_choice r w))) = k} = m"
proof -
  have j: "nat k < 6" using assms by (simp add: MAX_VEHICLES_def)
  have "{r. r < 6 * m \<and> sd_vehicle_count (fst (generate_sensor_data s (next_choice r w))) = k}
      = {r. r < 6 * m \<and> r mod 6 = nat k}"
    using assms(1) by (auto simp: sample_next_choice)
  then show ?thesis using residue_card [OF j, of m] by simp
qed

text \<open>
  Claim C6, as amended. \<open>generate_sensor_data\<close> returns the sensor's intersection name
  and a count drawn uniformly from 0 to \<open>MAX_VEHICLES\<close>: the count lies in that range, the
  six raw choices of one block give the six counts of the range, one each, and every count
  of the range is what exactly \<open>m\<close> of the generator's first \<open>6 * m\<close> raw choices give, so
  that all counts are drawn equally often. The call leaves the sensor's name alone but
  stores the returned count in the sensor's \<open>vehicle_count\<close> attribute, and in the world it
  only advances the random generator.
\<close>

theorem C6_sample_sets_count:
  "(let (data, s1, w1) = generate_sensor_data s w
    in sd_intersection data = intersection_name s \<and>
       0 \<le> sd_vehicle_count data \<and> sd_vehicle_count data \<le> MAX_VEHICLES \<and>
       s1 = s\<lparr>vehicle_count := sd_vehicle_count data\<rparr> \<and>
       intersection_name s1 = intersection_name s \<and>
       w1 = w\<lparr>rand_pos := rand_pos w + 1\<rparr>) \<and>
   generate_sensor_data s (next_choice (rand w (rand_pos w)) w) = generate_sensor_data s w \<and>
   map (\<lambda>r. sd_vehicle_count (fst (generate_sensor_data s (next_choice r w))))
       [0, 1, 2, 3, 4, 5] = [0, 1, 2, 3, 4, 5] \<and>
   (0 \<le> k \<and> k \<le> MAX_VEHICLES \<longrightarrow>
      card {r. r < 6 * m \<and>
              sd_vehicle_count (fst (generate_sensor_data s (next_choice r w))) = k} = m)"
proof (intro conjI impI)
  show "let (data, s1, w1) = generate_sensor_data s w
    in sd_intersection data = intersection_name s \<and>
       0 \<le> sd_vehicle_count data \<and> sd_vehicle_count data \<le> MAX_VEHICLES \<and>
       s1 = s\<lparr>vehicle_count := sd_vehicle_count data\<rparr> \<and>
       intersection_name s1 = intersection_name s \<and>
       w1 = w\<lparr>rand_pos := rand_pos w + 1\<rparr>"
    using randint_range [of 0 MAX_VEHICLES w]
    by (simp add: generate_sensor_data_eq MAX_VEHICLES_def)
  show "generate_sensor_data s (next_choice (rand w (rand_pos w)) w) = generate_sensor_data s w"
    by (simp add: next_choice_def)
  show "map (\<lambda>r. sd_vehicle_count (fst (generate_sensor_data s (next_choice r w))))
       [0, 1, 2, 3, 4, 5] = [0, 1, 2, 3, 4, 5]"
    by (simp add: sample_next_choice)
next
  assume "0 \<le> k \<and> k \<le> MAX_VEHICLES"
  then show "card {r. r < 6 * m \<and>
      sd_vehicle_count (fst (generate_sensor_data s (next_choice r w))) = k} = m"
    by (simp add: sample_fibre)
qed

theorem C6_sample_sets_count_witness:
  "card {r. r < 6 * 2 \<and>
      sd_vehicle_count (fst (generate_sensor_data (Sensor_init ''Intersection 1'')
        (next_choice r (initial_world (\<lambda>n. n))))) = 3} = 2 \<and>
   sd_vehicle_count (fst (generate_sensor_data (Sensor_init ''Intersection 1'')
        (initial_world (\<lambda>n. n)))) \<le> MAX_VEHICLES"
proof -
  note inst = C6_sample_sets_count [of "Sensor_init ''Intersection 1''"
      "initial_world (\<lambda>n. n)" 3 2]
  have h: "(0::int) \<le> 3 \<and> 3 \<le> MAX_VEHICLES" by (simp add: MAX_VEHICLES_def)
  have "card {r. r < 6 * 2 \<and>
      sd_vehicle_count (fst (generate_sensor_data (Sensor_init ''Intersection 1'')
        (next_choice r (initial_world (\<lambda>n. n))))) = 3} = 2"
    using inst h by blast
  moreover have "sd_vehicle_count (fst (generate_sensor_data (Sensor_init ''Intersection 1'')
        (initial_world (\<lambda>n. n)))) \<le> MAX_VEHICLES"
    using inst by (simp add: split_beta)
  ultimately show ?thesis by simp
qed

lemma send_data_frame:
  "heap (send_data_to_server dumps out data w) = heap w"
  "log_file (send_data_to_server dumps out data w) = log_file w"
  "open_conns (send_data_to_server dumps out data w) = open_conns w"
  by (cases out; simp add: send_data_to_server_def print_def)+

lemma start_sensors_lengths:
  "length (timestamps (network_traffic (fst (start_sensors dumps cycles ts w)))) =
     length (timestamps (network_traffic ts)) + length cycles \<and>
   length (vehicle_counts (network_traffic (fst (start_sensors dumps cycles ts w)))) =
     length (vehicle_counts (network_traffic ts)) + 3 * length cycles"
proof (induction cycles arbitrary: ts w)
  case Nil
  show ?case by simp
next
  case (Cons cy cycles)
  obtain o1 o2 o3 where cy: "cy = (o1, o2, o3)" by (cases cy)
  show ?case
    by (simp add: cy generate_sensor_data_eq Let_def Cons.IH)
qed

lemma start_sensors_heap:
  "heap (snd (start_sensors dumps cycles ts w)) = heap w \<and>
   log_file (snd (start_sensors dumps cycles ts w)) = log_file w"
proof (induction cycles arbitrary: ts w)
  case Nil
  show ?case by simp
next
  case (Cons cy cycles)
  obtain o1 o2 o3 where cy: "cy = (o1, o2, o3)" by (cases cy)
  show ?case
    by (simp add: cy generate_sensor_data_eq Let_def Cons.IH send_data_frame sleep_def)
qed

lemma TrafficSystem_init_network:
  "network_traffic (fst (TrafficSystem_init w)) = \<lparr>timestamps = [], vehicle_counts = []\<rparr>"
  by (simp add: TrafficSystem_init_def split_beta)

text \<open>
  Claim C7. Starting from a fresh \<open>TrafficSystem\<close>, after any number of producer cycles
  \<open>network_traffic\<close> holds one timestamp for each cycle and three vehicle counts for each
  cycle: the two lists have equal length only when no cycle has run.
\<close>

theorem C7_three_counts_per_timestamp:
  "let (ts, w1) = TrafficSystem_init w;
       (ts1, w2) = start_sensors dumps cycles ts w1
   in length (timestamps (network_traffic ts1)) = length cycles \<and>
      length (vehicle_counts (network_traffic ts1)) = 3 * length cycles"
  using start_sensors_lengths [of dumps cycles "fst (TrafficSystem_init w)" "snd (TrafficSystem_init w)"]
  by (simp add: split_beta TrafficSystem_init_network)

subsection \<open>No light turns green\<close>

lemma manage_traffic_heap_green:
  "state (heap (snd (manage_traffic c w)) a) = GREEN \<Longrightarrow> state (heap w a) = GREEN"
  unfolding manage_traffic_def by (rule while_heap_green)

lemma for_log_ext:
  "\<exists>ext. log_file (snd (for_intersections xs d w)) = log_file w @ ext \<and>
         list_all (\<lambda>e. le_state e = RED \<or> le_state e = YELLOW) ext"
proof (induction xs arbitrary: d w)
  case Nil
  show ?case by simp
next
  case (Cons x xs)
  obtain nm a where x: "x = (nm, a)" by (cases x)
  let ?v = "fst (randint 0 MAX_VEHICLES w)"
  obtain ext where ih:
    "log_file (snd (for_intersections xs (AList.update nm ?v d) (body nm a w))) =
       log_file (body nm a w) @ ext"
    "list_all (\<lambda>e. le_state e = RED \<or> le_state e = YELLOW) ext"
    using Cons.IH [of "AList.update nm ?v d" "body nm a w"] by blast
  show ?case
    using ih by (simp add: x for_Cons body_log_file del: for_intersections.simps(2))
qed

lemma while_log_ext:
  "\<exists>ext. log_file (snd (while_iterations c i d w)) = log_file w @ ext \<and>
         list_all (\<lambda>e. le_state e = RED \<or> le_state e = YELLOW) ext"
proof (induction i d w rule: while_induct [of c])
  case (stop i d w)
  then show ?case by (simp add: while_unfold_false)
next
  case (step i d w)
  let ?w1 = "snd (for_intersections (intersections c) d w)"
  obtain e1 where e1: "log_file ?w1 = log_file w @ e1"
    "list_all (\<lambda>e. le_state e = RED \<or> le_state e = YELLOW) e1"
    using for_log_ext [of "intersections c" d w] by blast
  obtain e2 where e2:
    "log_file (snd (while_iterations c (i + 1) (fst (for_intersections (intersections c) d w))
        (print (IterationCompleted (i + 1) (iterations c)) ?w1))) =
       log_file (print (IterationCompleted (i + 1) (iterations c)) ?w1) @ e2"
    "list_all (\<lambda>e. le_state e = RED \<or> le_state e = YELLOW) e2"
    using step.IH by blast
  show ?case
    apply (rule exI [of _ "e1 @ e2"])
    apply (simp only: while_unfold_true [OF step.hyps])
    using e1 e2 by (simp add: print_def)
qed

lemma manage_traffic_log_ext:
  "take (length (log_file w)) (log_file (snd (manage_traffic c w))) = log_file w \<and>
   list_all (\<lambda>e. le_state e = RED \<or> le_state e = YELLOW)
     (drop (length (log_file w)) (log_file (snd (manage_traffic c w))))"
proof -
  obtain ext where "log_file (snd (while_iterations c 0 [] w)) = log_file w @ ext"
    "list_all (\<lambda>e. le_state e = RED \<or> le_state e = YELLOW) ext"
    using while_log_ext [of c 0 "[]" w] by blast
  then show ?thesis by (simp add: manage_traffic_def)
qed

text \<open>
  Claim C9. The lights of a freshly built controller are all red; \<open>manage_traffic\<close> never
  turns a light green (a light that is not green before the call is not green after it,
  whatever the controller and the world); and every record that the call appends to the
  log, one for each transition it performs, is a transition to red or to yellow.
\<close>

theorem C9_green_unreachable:
  "map (\<lambda>(k, a). state (heap (snd (TrafficController_init w0)) a))
       (intersections (fst (TrafficController_init w0))) = [RED, RED, RED] \<and>
   (state (heap w a) \<noteq> GREEN \<longrightarrow> state (heap (snd (manage_traffic c w)) a) \<noteq> GREEN) \<and>
   take (length (log_file w)) (log_file (snd (manage_traffic c w))) = log_file w \<and>
   list_all (\<lambda>e. le_state e = RED \<or> le_state e = YELLOW)
     (drop (length (log_file w)) (log_file (snd (manage_traffic c w))))"
  using manage_traffic_heap_green [of c w a] manage_traffic_log_ext [of w c]
  by (auto simp: TrafficController_init_fst TrafficController_init_heap)

theorem C9_green_unreachable_witness:
  "state (heap (snd (TrafficController_init (initial_world (\<lambda>n. n)))) 0) \<noteq> GREEN \<and>
   state (heap (snd (manage_traffic (fst (TrafficController_init (initial_world (\<lambda>n. n))))
                       (snd (TrafficController_init (initial_world (\<lambda>n. n)))))) 0) \<noteq> GREEN"
  using C9_green_unreachable [of "initial_world (\<lambda>n. n)"
      "snd (TrafficController_init (initial_world (\<lambda>n. n)))" 0
      "fst (TrafficController_init (initial_world (\<lambda>n. n)))"]
  by (simp add: TrafficController_init_heap initial_world_def)

subsection \<open>The receiver loop\<close>

lemma try_body_recv_error:
  "try_body loads srv (Accepted c (Inl e)) cs w =
     (Some e, Some c, w\<lparr>open_conns := insert c (open_conns w)\<rparr>)"
  by (simp add: try_body_def)

lemma try_body_empty:
  "try_body loads srv (Accepted c (Inr [])) cs w =
     (None, Some c, w\<lparr>open_conns := insert c (open_conns w)\<rparr>)"
  by (simp add: try_body_def)

lemma try_body_decode_error:
  "data \<noteq> [] \<Longrightarrow> decode loads data = Inl e \<Longrightarrow>
   try_body loads srv (Accepted c (Inr data)) cs w =
     (Some e, Some c, w\<lparr>open_conns := insert c (open_conns w)\<rparr>)"
  by (auto simp: try_body_def decode_def split: sum.splits)

lemma try_body_decoded:
  "data \<noteq> [] \<Longrightarrow> decode loads data = Inr (x, y) \<Longrightarrow>
   try_body loads srv (Accepted c (Inr data)) cs w =
     (None, Some c,
      snd (manage_traffic (traffic_controller srv)
        (print (ReceivedData x y) (w\<lparr>open_conns := insert c (open_conns w)\<rparr>))))"
  by (auto simp: try_body_def decode_def split_beta split: sum.splits)

lemma manage_traffic_open_conns:
  "open_conns (snd (manage_traffic c w)) = open_conns w"
  by (simp add: manage_traffic_def while_frame)

lemma server_iteration_error:
  assumes "e \<noteq> SocketTimeout"
    and "received = Inl e \<or> (\<exists>data. received = Inr data \<and> data \<noteq> [] \<and> decode loads data = Inl e)"
  shows "server_iteration loads srv (Accepted c received) cs w =
     (None, Some c, w\<lparr>stdout := stdout w @ [ErrorProcessing e],
                       open_conns := open_conns w - {c}\<rparr>)"
proof -
  have "try_body loads srv (Accepted c received) cs w =
     (Some e, Some c, w\<lparr>open_conns := insert c (open_conns w)\<rparr>)"
    using assms(2) by (auto simp: try_body_recv_error try_body_decode_error)
  then show ?thesis
    using assms(1)
    by (simp add: server_iteration_def except_clauses_def finally_clause_def print_def)
qed

lemma server_iteration_decoded:
  assumes "data \<noteq> []" and "decode loads data = Inr (x, y)"
  shows "server_iteration loads srv (Accepted c (Inr data)) cs w =
     (None, Some c,
      (snd (manage_traffic (traffic_controller srv)
        (print (ReceivedData x y) (w\<lparr>open_conns := insert c (open_conns w)\<rparr>))))
      \<lparr>open_conns := open_conns w - {c}\<rparr>)"
  by (simp add: server_iteration_def try_body_decoded [OF assms] except_clauses_def
      finally_clause_def manage_traffic_open_conns print_def)

lemma server_iteration_evaluations:
  assumes "data \<noteq> []" and "decode loads data = Inr (x, y)"
  shows "decision_evaluations (drop (length (stdout w))
            (stdout (snd (snd (server_iteration loads srv (Accepted c (Inr data)) cs w))))) =
           nat (iterations (traffic_controller srv)) * length (intersections (traffic_controller srv))"
    and "evaluations_for nm (drop (length (stdout w))
            (stdout (snd (snd (server_iteration loads srv (Accepted c (Inr data)) cs w))))) =
           nat (iterations (traffic_controller srv)) *
             length (filter (\<lambda>kv. fst kv = nm) (intersections (traffic_controller srv)))"
proof -
  let ?c = "traffic_controller srv"
  let ?w1 = "print (ReceivedData x y) (w\<lparr>open_conns := insert c (open_conns w)\<rparr>)"
  obtain ext where e: "stdout (snd (manage_traffic ?c ?w1)) = stdout ?w1 @ ext"
     "decision_evaluations ext = nat (iterations ?c) * length (intersections ?c)"
     "\<forall>nm. evaluations_for nm ext =
           nat (iterations ?c) * length (filter (\<lambda>kv. fst kv = nm) (intersections ?c))"
    using manage_traffic_stdout [of ?c ?w1] by blast
  have out: "drop (length (stdout w))
        (stdout (snd (snd (server_iteration loads srv (Accepted c (Inr data)) cs w)))) =
      ReceivedData x y # ext"
    by (simp add: server_iteration_decoded [OF assms] e(1)) (simp add: print_def)
  show "decision_evaluations (drop (length (stdout w))
            (stdout (snd (snd (server_iteration loads srv (Accepted c (Inr data)) cs w))))) =
           nat (iterations ?c) * length (intersections ?c)"
    unfolding out using e(2) by (simp add: decision_evaluations_def)
  show "evaluations_for nm (drop (length (stdout w))
            (stdout (snd (snd (server_iteration loads srv (Accepted c (Inr data)) cs w))))) =
           nat (iterations ?c) * length (filter (\<lambda>kv. fst kv = nm) (intersections ?c))"
    unfolding out using e(3) by (simp add: evaluations_for_def)
qed

lemma Server_init_controller:
  "traffic_controller (fst (Server_init w)) =
     \<lparr>intersections = [(''Intersection 1'', next_addr w), (''Intersection 2'', next_addr w + 1),
                       (''Intersection 3'', next_addr w + 2)],
      iterations = 10, active_intersections = []\<rparr>"
  using TrafficController_init_fst [of w] by (simp add: Server_init_def split_beta)

lemma Server_init_world: "snd (Server_init w) = snd (TrafficController_init w)"
  by (simp add: Server_init_def split_beta)

lemma decode_sample: "decode sample_loads ''telemetry'' = Inr (JString ''Intersection 1'', JInt 3)"
  by (simp add: decode_def sample_loads_def)

lemma decode_sample_bad: "decode sample_loads ''garbage'' = Inl JSONDecodeError"
  by (simp add: decode_def sample_loads_def)

text \<open>
  Claim C4 as stated fails: on the server that \<open>Server.__init__\<close> builds, one connection with
  a decodable record makes the receiver evaluate the policy 30 times, 10 times for the
  first intersection alone, and not once for each of the 3 intersections.
\<close>

theorem C4_counterexample:
  "decision_evaluations (drop (length (stdout (snd (Server_init (initial_world (\<lambda>n. n))))))
      (stdout (snd (snd (server_iteration sample_loads (fst (Server_init (initial_world (\<lambda>n. n))))
         (Accepted 7 (Inr ''telemetry'')) None (snd (Server_init (initial_world (\<lambda>n. n))))))))) = 30 \<and>
   evaluations_for ''Intersection 1''
     (drop (length (stdout (snd (Server_init (initial_world (\<lambda>n. n))))))
      (stdout (snd (snd (server_iteration sample_loads (fst (Server_init (initial_world (\<lambda>n. n))))
         (Accepted 7 (Inr ''telemetry'')) None (snd (Server_init (initial_world (\<lambda>n. n))))))))) = 10 \<and>
   length (intersections (traffic_controller (fst (Server_init (initial_world (\<lambda>n. n)))))) = 3"
  by (simp add: server_iteration_evaluations [OF _ decode_sample] Server_init_controller)

text \<open>
  Claim C4, as amended. When the text received on an accepted connection is not empty and
  decodes to a record, the receiver prints it and calls \<open>manage_traffic\<close> once on the
  server's own controller, then closes the connection and continues; that one call
  evaluates the policy \<open>iterations\<close> times for every intersection of the controller. When
  receiving or decoding raises an exception other than a timeout, the receiver prints the
  error, closes the connection, and the loop goes on with the next event.
\<close>

theorem C4_receiver_processing:
  "(data \<noteq> [] \<and> decode loads data = Inr (x, y) \<longrightarrow>
      server_iteration loads srv (Accepted c (Inr data)) cs w =
        (None, Some c,
         (snd (manage_traffic (traffic_controller srv)
           (print (ReceivedData x y) (w\<lparr>open_conns := insert c (open_conns w)\<rparr>))))
         \<lparr>open_conns := open_conns w - {c}\<rparr>) \<and>
      decision_evaluations (drop (length (stdout w))
          (stdout (snd (snd (server_iteration loads srv (Accepted c (Inr data)) cs w))))) =
        nat (iterations (traffic_controller srv)) * length (intersections (traffic_controller srv)) \<and>
      (\<forall>nm. evaluations_for nm (drop (length (stdout w))
          (stdout (snd (snd (server_iteration loads srv (Accepted c (Inr data)) cs w))))) =
        nat (iterations (traffic_controller srv)) *
          length (filter (\<lambda>kv. fst kv = nm) (intersections (traffic_controller srv)))) \<and>
      server_loop loads srv (Accepted c (Inr data) # evs) cs w =
        server_loop loads srv evs (Some c)
          (snd (snd (server_iteration loads srv (Accepted c (Inr data)) cs w)))) \<and>
   (e \<noteq> SocketTimeout \<and>
      (received = Inl e \<or> (\<exists>text. received = Inr text \<and> text \<noteq> [] \<and> decode loads text = Inl e)) \<longrightarrow>
      server_iteration loads srv (Accepted c received) cs w =
        (None, Some c, w\<lparr>stdout := stdout w @ [ErrorProcessing e],
                          open_conns := open_conns w - {c}\<rparr>) \<and>
      server_loop loads srv (Accepted c received # evs) cs w =
        server_loop loads srv evs (Some c)
          (w\<lparr>stdout := stdout w @ [ErrorProcessing e], open_conns := open_conns w - {c}\<rparr>))"
proof (intro conjI impI allI)
  assume a: "data \<noteq> [] \<and> decode loads data = Inr (x, y)"
  then have d: "data \<noteq> []" "decode loads data = Inr (x, y)" by simp_all
  show "server_iteration loads srv (Accepted c (Inr data)) cs w =
        (None, Some c,
         (snd (manage_traffic (traffic_controller srv)
           (print (ReceivedData x y) (w\<lparr>open_conns := insert c (open_conns w)\<rparr>))))
         \<lparr>open_conns := open_conns w - {c}\<rparr>)"
    by (rule server_iteration_decoded [OF d])
  then show "server_loop loads srv (Accepted c (Inr data) # evs) cs w =
        server_loop loads srv evs (Some c)
          (snd (snd (server_iteration loads srv (Accepted c (Inr data)) cs w)))"
    by simp
  show "decision_evaluations (drop (length (stdout w))
          (stdout (snd (snd (server_iteration loads srv (Accepted c (Inr data)) cs w))))) =
        nat (iterations (traffic_controller srv)) * length (intersections (traffic_controller srv))"
    by (rule server_iteration_evaluations [OF d])
  show "evaluations_for nm (drop (length (stdout w))
          (stdout (snd (snd (server_iteration loads srv (Accepted c (Inr data)) cs w))))) =
        nat (iterations (traffic_controller srv)) *
          length (filter (\<lambda>kv. fst kv = nm) (intersections (traffic_controller srv)))" for nm
    by (rule server_iteration_evaluations [OF d])
next
  assume a: "e \<noteq> SocketTimeout \<and>
      (received = Inl e \<or> (\<exists>text. received = Inr text \<and> text \<noteq> [] \<and> decode loads text = Inl e))"
  then have e: "e \<noteq> SocketTimeout"
    and r: "received = Inl e \<or> (\<exists>data. received = Inr data \<and> data \<noteq> [] \<and> decode loads data = Inl e)"
    by simp_all
  show it: "server_iteration loads srv (Accepted c received) cs w =
        (None, Some c, w\<lparr>stdout := stdout w @ [ErrorProcessing e],
                          open_conns := open_conns w - {c}\<rparr>)"
    by (rule server_iteration_error [OF e r])
  show "server_loop loads srv (Accepted c received # evs) cs w =
        server_loop loads srv evs (Some c)
          (w\<lparr>stdout := stdout w @ [ErrorProcessing e], open_conns := open_conns w - {c}\<rparr>)"
    by (simp add: it)
qed

theorem C4_receiver_processing_witness:
  "decision_evaluations (drop (length (stdout (snd (Server_init (initial_world (\<lambda>n. n))))))
      (stdout (snd (snd (server_iteration sample_loads (fst (Server_init (initial_world (\<lambda>n. n))))
         (Accepted 7 (Inr ''telemetry'')) None (snd (Server_init (initial_world (\<lambda>n. n))))))))) = 30 \<and>
   server_iteration sample_loads (fst (Server_init (initial_world (\<lambda>n. n))))
       (Accepted 7 (Inr ''garbage'')) None (snd (Server_init (initial_world (\<lambda>n. n)))) =
     (None, Some 7, (snd (Server_init (initial_world (\<lambda>n. n))))
        \<lparr>stdout := stdout (snd (Server_init (initial_world (\<lambda>n. n)))) @ [ErrorProcessing JSONDecodeError],
         open_conns := open_conns (snd (Server_init (initial_world (\<lambda>n. n)))) - {7}\<rparr>)"
proof -
  note inst = C4_receiver_processing [of "''telemetry''" sample_loads "JString ''Intersection 1''"
      "JInt 3" "fst (Server_init (initial_world (\<lambda>n. n)))" 7 None
      "snd (Server_init (initial_world (\<lambda>n. n)))" "[]" JSONDecodeError "Inr ''garbage''"]
  have h1: "''telemetry'' \<noteq> [] \<and>
      decode sample_loads ''telemetry'' = Inr (JString ''Intersection 1'', JInt 3)"
    by (simp add: decode_sample)
  have h2: "JSONDecodeError \<noteq> SocketTimeout \<and>
      ((Inr ''garbage'' :: error + string) = Inl JSONDecodeError \<or>
       (\<exists>text. (Inr ''garbage'' :: error + string) = Inr text \<and> text \<noteq> [] \<and>
           decode sample_loads text = Inl JSONDecodeError))"
    by (simp add: decode_sample_bad)
  have "decision_evaluations (drop (length (stdout (snd (Server_init (initial_world (\<lambda>n. n))))))
      (stdout (snd (snd (server_iteration sample_loads (fst (Server_init (initial_world (\<lambda>n. n))))
         (Accepted 7 (Inr ''telemetry'')) None (snd (Server_init (initial_world (\<lambda>n. n))))))))) =
     nat (iterations (traffic_controller (fst (Server_init (initial_world (\<lambda>n. n)))))) *
     length (intersections (traffic_controller (fst (Server_init (initial_world (\<lambda>n. n))))))"
    using inst [THEN conjunct1, THEN mp, OF h1] by blast
  moreover have "server_iteration sample_loads (fst (Server_init (initial_world (\<lambda>n. n))))
       (Accepted 7 (Inr ''garbage'')) None (snd (Server_init (initial_world (\<lambda>n. n)))) =
     (None, Some 7, (snd (Server_init (initial_world (\<lambda>n. n))))
        \<lparr>stdout := stdout (snd (Server_init (initial_world (\<lambda>n. n)))) @ [ErrorProcessing JSONDecodeError],
         open_conns := open_conns (snd (Server_init (initial_world (\<lambda>n. n)))) - {7}\<rparr>)"
    using inst [THEN conjunct2, THEN mp, OF h2] by blast
  ultimately show ?thesis by (simp add: Server_init_controller)
qed

lemma server_iteration_unbound:
  "server_iteration loads srv AcceptTimeout None w =
     (Some (UnboundLocalError ''client_socket''), None, w)"
  "server_iteration loads srv (AcceptFails e) None w =
     (Some (UnboundLocalError ''client_socket''), None,
      if e = SocketTimeout then w else print (ErrorProcessing e) w)"
  by (simp_all add: server_iteration_def try_body_def except_clauses_def finally_clause_def)

lemma server_iteration_timeout_bound:
  "server_iteration loads srv AcceptTimeout (Some c) w =
     (None, Some c, w\<lparr>open_conns := open_conns w - {c}\<rparr>)"
  by (simp add: server_iteration_def try_body_def except_clauses_def finally_clause_def)

lemma try_body_accepted:
  "\<exists>r w1. try_body loads srv (Accepted c received) cs w = (r, Some c, w1) \<and>
          open_conns w1 = insert c (open_conns w)"
proof (cases received)
  case (Inl e)
  then show ?thesis by (simp add: try_body_recv_error)
next
  case (Inr data)
  show ?thesis
  proof (cases "data = []")
    case True
    then show ?thesis by (simp add: Inr try_body_empty)
  next
    case False
    show ?thesis
    proof (cases "decode loads data")
      case (Inl e)
      show ?thesis by (simp add: \<open>received = Inr data\<close> try_body_decode_error [OF False Inl])
    next
      case (Inr xy)
      obtain x y where xy: "xy = (x, y)" by (cases xy)
      show ?thesis
        using try_body_decoded [OF False Inr [unfolded xy]]
        by (simp add: \<open>received = Inr data\<close> manage_traffic_open_conns print_def)
    qed
  qed
qed

lemma except_clauses_open_conns: "open_conns (except_clauses r w) = open_conns w"
  by (simp add: except_clauses_def print_def split: option.splits)

lemma server_iteration_closes:
  "open_conns (snd (snd (server_iteration loads srv (Accepted c received) cs w))) =
     open_conns w - {c} \<and>
   fst (server_iteration loads srv (Accepted c received) cs w) = None"
proof -
  obtain r w1 where t: "try_body loads srv (Accepted c received) cs w = (r, Some c, w1)"
    "open_conns w1 = insert c (open_conns w)"
    using try_body_accepted by blast
  show ?thesis
    by (simp add: server_iteration_def t finally_clause_def except_clauses_open_conns)
qed

text \<open>
  Claim C5. The claim does not hold on the code: when the first \<open>accept\<close> of the receiver
  times out, the \<open>finally\<close> clause reads \<open>client_socket\<close> before any assignment to it, the
  resulting \<open>UnboundLocalError\<close> escapes the loop, and \<open>start_server\<close> ends with that
  exception without looking at any later event.
\<close>

theorem C5_first_timeout_ends_receiver:
  "start_server loads None (AcceptTimeout # evs) srv w =
     (Some (UnboundLocalError ''client_socket''), w\<lparr>stdout := stdout w @ [ServerListening]\<rparr>)"
  by (simp add: start_server_def server_iteration_unbound print_def)

subsection \<open>A failed bind\<close>

lemma silent_eqD: "silent w = silent w' \<Longrightarrow> \<exists>s. w' = w\<lparr>stdout := s\<rparr>"
  by (cases w, cases w') (simp add: silent_def)

lemma silent_update [simp]: "silent (w\<lparr>stdout := s\<rparr>) = silent w"
  by (simp add: silent_def)

lemma silent_print [simp]: "silent (print l w) = silent w"
  by (simp add: print_def)

lemma body_silent:
  "silent (body nm a (w\<lparr>stdout := s\<rparr>)) = silent (body nm a w)"
  by (simp add: body_def decide_def effect_defs randint_def Let_def silent_def)

lemma randint_silent: "fst (randint a b (w\<lparr>stdout := s\<rparr>)) = fst (randint a b w)"
  by (simp add: randint_def)

lemma for_silent:
  "silent w = silent w' \<Longrightarrow>
   fst (for_intersections xs d w) = fst (for_intersections xs d w') \<and>
   silent (snd (for_intersections xs d w)) = silent (snd (for_intersections xs d w'))"
proof (induction xs arbitrary: d w w')
  case Nil
  then show ?case by simp
next
  case (Cons x xs)
  obtain nm a where x: "x = (nm, a)" by (cases x)
  obtain s where w': "w' = w\<lparr>stdout := s\<rparr>" using silent_eqD [OF Cons.prems] by blast
  have v: "fst (randint 0 MAX_VEHICLES w') = fst (randint 0 MAX_VEHICLES w)"
    by (simp add: w' randint_silent)
  have b: "silent (body nm a w) = silent (body nm a w')"
    by (simp add: w' body_silent)
  show ?case
    using Cons.IH [OF b] by (simp add: x for_Cons v del: for_intersections.simps(2))
qed

lemma while_silent:
  "silent w = silent w' \<Longrightarrow>
   fst (while_iterations c i d w) = fst (while_iterations c i d w') \<and>
   silent (snd (while_iterations c i d w)) = silent (snd (while_iterations c i d w'))"
proof (induction i d w arbitrary: w' rule: while_induct [of c])
  case (stop i d w)
  then show ?case by (simp add: while_unfold_false)
next
  case (step i d w)
  let ?xs = "intersections c"
  have f: "fst (for_intersections ?xs d w) = fst (for_intersections ?xs d w')"
    "silent (snd (for_intersections ?xs d w)) = silent (snd (for_intersections ?xs d w'))"
    using for_silent [OF step.prems] by simp_all
  have "silent (print (IterationCompleted (i + 1) (iterations c)) (snd (for_intersections ?xs d w))) =
        silent (print (IterationCompleted (i + 1) (iterations c)) (snd (for_intersections ?xs d w')))"
    using f(2) by simp
  from step.IH [OF this] show ?case
    by (simp only: while_unfold_true [OF step.hyps] f(1))
qed

lemma send_silent:
  "silent w = silent w' \<Longrightarrow>
   silent (send_data_to_server dumps out data w) = silent (send_data_to_server dumps out data w')"
proof -
  assume "silent w = silent w'"
  then obtain s where w': "w' = w\<lparr>stdout := s\<rparr>" using silent_eqD by blast
  show ?thesis
    by (cases out; simp add: w' send_data_to_server_def print_def silent_def)
qed

lemma sleep_silent:
  "silent w = silent w' \<Longrightarrow> silent (sleep n w) = silent (sleep n w')"
proof -
  assume "silent w = silent w'"
  then obtain s where w': "w' = w\<lparr>stdout := s\<rparr>" using silent_eqD by blast
  show ?thesis by (simp add: w' sleep_def silent_def)
qed

lemma start_sensors_silent:
  "silent w = silent w' \<Longrightarrow>
   fst (start_sensors dumps cycles ts w) = fst (start_sensors dumps cycles ts w') \<and>
   silent (snd (start_sensors dumps cycles ts w)) = silent (snd (start_sensors dumps cycles ts w'))"
proof (induction cycles arbitrary: ts w w')
  case Nil
  then show ?case by simp
next
  case (Cons cy cycles)
  obtain o1 o2 o3 where cy: "cy = (o1, o2, o3)" by (cases cy)
  obtain s where w': "w' = w\<lparr>stdout := s\<rparr>" using silent_eqD [OF Cons.prems] by blast
  let ?g = "\<lambda>w. w\<lparr>rand_pos := rand_pos w + 1\<rparr>"
  have r: "rand w' = rand w" "rand_pos w' = rand_pos w" "clock w' = clock w"
    by (simp_all add: w')
  have g: "silent (?g (?g (?g w))) = silent (?g (?g (?g w')))"
    by (simp add: w' silent_def)
  show ?case
    apply (simp add: cy generate_sensor_data_eq Let_def randint_def r)
    apply (rule Cons.IH)
    apply (intro sleep_silent send_silent)
    using g by (simp add: r)
qed

text \<open>
  Claim C8. When \<open>bind\<close> (or \<open>listen\<close>) raises, \<open>start_server\<close> prints the error and returns
  normally: no exception escapes and no event is processed. The world it leaves differs
  from the one it found by that one printed line only, so the decision loop and the
  producer, run on the world after the failed start, return what they return on the world
  before it and leave the same world apart from the printed lines.
\<close>

theorem C8_bind_failure:
  "let (raised, w1) = start_server loads (Some e) evs srv w
   in raised = None \<and>
      w1 = w\<lparr>stdout := stdout w @ [ErrorStarting e]\<rparr> \<and>
      fst (manage_traffic c w1) = fst (manage_traffic c w) \<and>
      silent (snd (manage_traffic c w1)) = silent (snd (manage_traffic c w)) \<and>
      fst (start_sensors dumps cycles ts w1) = fst (start_sensors dumps cycles ts w) \<and>
      silent (snd (start_sensors dumps cycles ts w1)) = silent (snd (start_sensors dumps cycles ts w))"
proof -
  let ?w1 = "w\<lparr>stdout := stdout w @ [ErrorStarting e]\<rparr>"
  have s: "silent ?w1 = silent w" by simp
  have "start_server loads (Some e) evs srv w = (None, ?w1)"
    by (simp add: start_server_def print_def)
  then show ?thesis
    using while_silent [OF s, of c 0 "[]"] start_sensors_silent [OF s, of dumps cycles ts]
    by (simp add: manage_traffic_def)
qed

subsection \<open>The lights of the two controllers\<close>

lemma manage_traffic_heap_frame:
  "a \<notin> snd ` set (intersections c) \<Longrightarrow> heap (snd (manage_traffic c w)) a = heap w a"
  unfolding manage_traffic_def by (rule while_heap_frame)

lemma server_iteration_heap:
  assumes "a \<notin> snd ` set (intersections (traffic_controller srv))"
  shows "heap (snd (snd (server_iteration loads srv ev cs w))) a = heap w a"
proof -
  have t: "heap (snd (snd (try_body loads srv ev cs w))) a = heap w a"
    using manage_traffic_heap_frame [OF assms]
    by (auto simp: try_body_def print_def split_beta Let_def split: accept_event.splits sum.splits)
  have e: "heap (except_clauses r w') = heap w'" for r w'
    by (simp add: except_clauses_def print_def split: option.splits)
  show ?thesis
    using t
    by (auto simp: server_iteration_def finally_clause_def e split_beta Let_def
        split: option.splits)
qed

lemma server_loop_heap:
  assumes "a \<notin> snd ` set (intersections (traffic_controller srv))"
  shows "heap (snd (server_loop loads srv evs cs w)) a = heap w a"
proof (induction evs arbitrary: cs w)
  case Nil
  show ?case by simp
next
  case (Cons ev evs)
  obtain r cs1 w1 where it: "server_iteration loads srv ev cs w = (r, cs1, w1)"
    by (cases "server_iteration loads srv ev cs w")
  have h: "heap w1 a = heap w a"
    using server_iteration_heap [OF assms, of loads ev cs w] by (simp add: it)
  show ?case
    using Cons.IH [of cs1 w1] h by (cases r) (simp_all add: it)
qed

lemma start_server_heap:
  assumes "a \<notin> snd ` set (intersections (traffic_controller srv))"
  shows "heap (snd (start_server loads b evs srv w)) a = heap w a"
  using server_loop_heap [OF assms, of loads evs None "print ServerListening w"]
  by (cases b) (simp_all add: start_server_def print_def)

lemma traffic_light_states_cong:
  "map (heap w) (map snd ints) = map (heap w') (map snd ints) \<Longrightarrow>
   traffic_light_states ints w = traffic_light_states ints w'"
  unfolding traffic_light_states_def
  by (rule foldl_cong) auto

lemma TrafficSystem_init_controller:
  "controller (fst (TrafficSystem_init w)) =
     \<lparr>intersections = [(''Intersection 1'', next_addr w), (''Intersection 2'', next_addr w + 1),
                       (''Intersection 3'', next_addr w + 2)],
      iterations = 10, active_intersections = []\<rparr>"
  using TrafficController_init_fst [of w] by (simp add: TrafficSystem_init_def split_beta)

lemma TrafficSystem_init_world: "snd (TrafficSystem_init w) = snd (TrafficController_init w)"
  by (simp add: TrafficSystem_init_def split_beta)

text \<open>
  Claim C10. Built in the order of \<open>run_traffic_system\<close>, the \<open>TrafficSystem\<close>'s controller
  and the \<open>Server\<close>'s controller hold lights at disjoint addresses, and building the server
  does not touch the system's lights. From any world, whatever \<open>bind\<close> does, whatever
  arrives on the connections and however it decodes, \<open>start_server\<close> leaves every light of
  the system's controller as it was (state and observation history), and with them the
  state mapping that is reported at the end; the producer loop leaves the whole heap
  as it was.
\<close>

theorem C10_server_lights_disjoint:
  "let (ts, w1) = TrafficSystem_init w;
       (srv, w2) = Server_init w1;
       own = map snd (intersections (controller ts))
   in set own \<inter> set (map snd (intersections (traffic_controller srv))) = {} \<and>
      map (heap w2) own = map (heap w1) own \<and>
      (\<forall>loads b evs w3.
          map (heap (snd (start_server loads b evs srv w3))) own = map (heap w3) own \<and>
          traffic_light_states (intersections (controller ts))
              (snd (start_server loads b evs srv w3)) =
            traffic_light_states (intersections (controller ts)) w3) \<and>
      (\<forall>dumps cycles w3. heap (snd (start_sensors dumps cycles ts w3)) = heap w3)"
proof -
  let ?ts = "fst (TrafficSystem_init w)"
  let ?w1 = "snd (TrafficSystem_init w)"
  let ?srv = "fst (Server_init ?w1)"
  let ?w2 = "snd (Server_init ?w1)"
  let ?n = "next_addr w"
  have own: "map snd (intersections (controller ?ts)) = [?n, ?n + 1, ?n + 2]"
    by (simp add: TrafficSystem_init_controller)
  have n1: "next_addr ?w1 = ?n + 3"
    by (simp add: TrafficSystem_init_world TrafficController_init_frame)
  have other: "map snd (intersections (traffic_controller ?srv)) = [?n + 3, ?n + 4, ?n + 5]"
    by (simp add: Server_init_controller n1)
  have disj: "set [?n, ?n + 1, ?n + 2] \<inter> set [?n + 3, ?n + 4, ?n + 5] = {}"
    by simp
  have built: "map (heap ?w2) [?n, ?n + 1, ?n + 2] = map (heap ?w1) [?n, ?n + 1, ?n + 2]"
    by (simp add: Server_init_world TrafficController_init_heap n1)
  have notin: "a \<notin> snd ` set (intersections (traffic_controller ?srv))"
    if "a \<in> set [?n, ?n + 1, ?n + 2]" for a
    using that other by (metis disj disjoint_iff set_map)
  have frame: "map (heap (snd (start_server loads b evs ?srv w3))) [?n, ?n + 1, ?n + 2] =
      map (heap w3) [?n, ?n + 1, ?n + 2]" for loads b evs w3
    by (rule map_cong [OF refl]) (rule start_server_heap [OF notin])
  have states: "traffic_light_states (intersections (controller ?ts))
        (snd (start_server loads b evs ?srv w3)) =
      traffic_light_states (intersections (controller ?ts)) w3" for loads b evs w3
    by (rule traffic_light_states_cong) (simp only: own frame)
  show ?thesis
    using disj built frame states
    by (simp only: Let_def split_beta own other start_sensors_heap) simp
qed

end
